theory Spec2Isabelle
  imports Main "HOL-Library.Word"
begin

section \<open>Python values and exceptions\<close>

text \<open>
  The values that \<^verbatim>\<open>response.json()\<close> delivers. A dict is the list of its items in
  insertion order (keys distinct); numbers are the integers (a JSON number with a
  fraction is outside this model).
\<close>

datatype json =
    JNull
  | JBool bool
  | JInt int
  | JStr string
  | JArr "json list"
  | JObj "(string \<times> json) list"

text \<open>
  The exceptions that leave the functions of \<^verbatim>\<open>account.py\<close>. \<open>RequestException\<close> is
  whatever \<^verbatim>\<open>requests.get\<close> or \<^verbatim>\<open>requests.post\<close> raises itself (no connection, timeout,
  a URL it refuses); \<open>HTTPError\<close> is raised by \<^verbatim>\<open>raise_for_status\<close> and carries the status;
  \<open>RobotError\<close> stands for what a robot's own requests can raise.
\<close>

datatype error =
    RequestException
  | HTTPError nat
  | ValueError
  | TypeError
  | KeyError string
  | IndexError
  | OSError
  | RobotError

text \<open>\<^verbatim>\<open>for x in v\<close>: the elements of a list, the keys of a dict, the characters of a string.\<close>

definition py_iter :: "json \<Rightarrow> error + json list" where
  "py_iter v =
     (case v of
        JArr xs \<Rightarrow> Inr xs
      | JObj kvs \<Rightarrow> Inr (map (\<lambda>kv. JStr (fst kv)) kvs)
      | JStr s \<Rightarrow> Inr (map (\<lambda>c. JStr [c]) s)
      | _ \<Rightarrow> Inl TypeError)"

text \<open>\<^verbatim>\<open>v[key]\<close> with a string key: a lookup in a dict, a \<open>TypeError\<close> on anything else.\<close>

definition subscript :: "json \<Rightarrow> string \<Rightarrow> error + json" where
  "subscript v k =
     (case v of
        JObj kvs \<Rightarrow> (case map_of kvs k of None \<Rightarrow> Inl (KeyError k) | Some x \<Rightarrow> Inr x)
      | _ \<Rightarrow> Inl TypeError)"

text \<open>\<^verbatim>\<open>xs[i]\<close> on a list, for an index from the front.\<close>

definition index :: "'a list \<Rightarrow> nat \<Rightarrow> error + 'a" where
  "index xs i = (if i < length xs then Inr (xs ! i) else Inl IndexError)"

subsection \<open>Dicts keyed by JSON values\<close>

text \<open>
  \<^verbatim>\<open>_maps\<close> and the result of \<^verbatim>\<open>persistent_maps\<close> are dicts whose keys are robot serials,
  values taken from JSON. Lists and dicts cannot be hashed; \<^verbatim>\<open>True\<close> and \<^verbatim>\<open>1\<close>
  (\<^verbatim>\<open>False\<close> and \<^verbatim>\<open>0\<close>) are the same key. Storing under a key that is present keeps the
  key's place and replaces the value; a new key goes last.
\<close>

definition hashable :: "json \<Rightarrow> bool" where
  "hashable k = (case k of JArr _ \<Rightarrow> False | JObj _ \<Rightarrow> False | _ \<Rightarrow> True)"

fun key_eq :: "json \<Rightarrow> json \<Rightarrow> bool" where
  "key_eq (JBool b) (JInt n) = (n = (if b then 1 else 0))"
| "key_eq (JInt n) (JBool b) = (n = (if b then 1 else 0))"
| "key_eq a b = (a = b)"

fun dict_set :: "json \<Rightarrow> json \<Rightarrow> (json \<times> json) list \<Rightarrow> (json \<times> json) list" where
  "dict_set k v [] = [(k, v)]"
| "dict_set k v ((k', v') # kvs) =
     (if key_eq k' k then (k', v) # kvs else (k', v') # dict_set k v kvs)"

definition dict_update :: "json \<Rightarrow> json \<Rightarrow> (json \<times> json) list \<Rightarrow> error + (json \<times> json) list" where
  "dict_update k v d = (if hashable k then Inr (dict_set k v d) else Inl TypeError)"

subsection \<open>Strings and paths\<close>

text \<open>\<^verbatim>\<open>s.split(c)\<close> for a one-character separator: never empty.\<close>

fun py_split :: "char \<Rightarrow> string \<Rightarrow> string list" where
  "py_split c [] = [[]]"
| "py_split c (x # xs) =
     (if x = c then [] # py_split c xs
      else (case py_split c xs of [] \<Rightarrow> [[x]] | y # ys \<Rightarrow> (x # y) # ys))"

fun py_join :: "char \<Rightarrow> string list \<Rightarrow> string" where
  "py_join c [] = []"
| "py_join c [p] = p"
| "py_join c (p # q # ps) = p @ c # py_join c (q # ps)"

text \<open>\<^verbatim>\<open>s.rsplit(c, n)\<close>: at most \<open>n\<close> splits, made from the right.\<close>

definition py_rsplit :: "char \<Rightarrow> nat \<Rightarrow> string \<Rightarrow> string list" where
  "py_rsplit c n s =
     (let parts = py_split c s in
      if length parts \<le> Suc n then parts
      else py_join c (take (length parts - n) parts) # drop (length parts - n) parts)"

text \<open>\<^verbatim>\<open>os.path.join(a, b)\<close> on a POSIX system.\<close>

definition path_join :: "string \<Rightarrow> string \<Rightarrow> string" where
  "path_join a b =
     (if b \<noteq> [] \<and> hd b = CHR ''/'' then b
      else if a = [] \<or> last a = CHR ''/'' then a @ b
      else a @ ''/'' @ b)"

text \<open>\<^verbatim>\<open>binascii.hexlify\<close>: two lower-case hexadecimal digits for each byte.\<close>

definition hex_digit :: "nat \<Rightarrow> char" where
  "hex_digit n = ''0123456789abcdef'' ! (n mod 16)"

definition hexlify :: "8 word list \<Rightarrow> string" where
  "hexlify bs = concat (map (\<lambda>b. [hex_digit (unat b div 16), hex_digit (unat b mod 16)]) bs)"

section \<open>Authentication providers\<close>

text \<open>
  \<^verbatim>\<open>BasicAuthProvider\<close> holds the access token as \<^verbatim>\<open>login_basic\<close> takes it from the JSON
  body; \<^verbatim>\<open>OAuthProvider\<close> holds the token string its caller passes. Their method
  \<^verbatim>\<open>generate_headers\<close> follows below, once the world is there in which its calls are
  recorded.
\<close>

datatype auth_provider = BasicAuthProvider json | OAuthProvider string

section \<open>The network, the file system and the other surroundings\<close>

datatype http_verb = GET | POST

record request =
  req_verb :: http_verb
  req_url :: string
  req_headers :: "(string \<times> string) list option"
  req_json :: "json option"
  req_stream :: bool
  req_timeout :: "nat option"

text \<open>
  \<^verbatim>\<open>response.raw\<close>: the body as a stream that is read once. \<open>unread\<close> is what a reader
  still gets from it.
\<close>

record raw_stream =
  unread :: string
  decode_content :: bool

text \<open>
  A response: its status, its body as parsed JSON (\<open>None\<close> when the body is not JSON, so
  that \<^verbatim>\<open>json()\<close> raises) and its body as a stream.
\<close>

record response =
  status_code :: nat
  json_body :: "json option"
  raw :: raw_stream

datatype reply = Raises | Response response

text \<open>
  The world outside the process. \<open>request_log\<close> holds every request sent so far, oldest
  first; \<open>server\<close> answers a request, given the requests before it; \<open>files\<close> is the
  content of each path and \<open>open_fails\<close> says where \<^verbatim>\<open>open(path, 'wb')\<close> raises;
  \<open>urandom_bytes\<close> is the stream \<^verbatim>\<open>os.urandom\<close> reads from and \<open>urandom_pos\<close> how far it has
  been read; \<open>next_oid\<close> is the identity the next new object gets. \<open>generate_headers_log\<close>
  is the record of the calls of \<^verbatim>\<open>generate_headers()\<close> made so far: the provider of each
  call, oldest first.
\<close>

record world =
  request_log :: "request list"
  server :: "request list \<Rightarrow> request \<Rightarrow> reply"
  files :: "string \<Rightarrow> string option"
  open_fails :: "string \<Rightarrow> bool"
  urandom_bytes :: "nat \<Rightarrow> 8 word"
  urandom_pos :: nat
  next_oid :: nat
  generate_headers_log :: "auth_provider list"

text \<open>\<^verbatim>\<open>requests.get\<close> and \<^verbatim>\<open>requests.post\<close>: the request is sent, then answered or not.\<close>

definition http_request :: "request \<Rightarrow> world \<Rightarrow> (error + response) \<times> world" where
  "http_request q w =
     (case server w (request_log w) q of
        Raises \<Rightarrow> (Inl RequestException, w\<lparr>request_log := request_log w @ [q]\<rparr>)
      | Response r \<Rightarrow> (Inr r, w\<lparr>request_log := request_log w @ [q]\<rparr>))"

text \<open>\<^verbatim>\<open>Response.raise_for_status\<close> of the requests library: it raises on 4xx and 5xx.\<close>

definition raise_for_status :: "response \<Rightarrow> error + unit" where
  "raise_for_status r =
     (if 400 \<le> status_code r \<and> status_code r < 600 then Inl (HTTPError (status_code r))
      else Inr ())"

definition response_json :: "response \<Rightarrow> error + json" where
  "response_json r = (case json_body r of None \<Rightarrow> Inl ValueError | Some j \<Rightarrow> Inr j)"

definition os_urandom :: "nat \<Rightarrow> world \<Rightarrow> 8 word list \<times> world" where
  "os_urandom n w =
     (map (urandom_bytes w) [urandom_pos w ..< urandom_pos w + n],
      w\<lparr>urandom_pos := urandom_pos w + n\<rparr>)"

section \<open>Robots and the library\<close>

text \<open>
  Modelled from the spec: the \<^verbatim>\<open>Robot\<close> class of \<^verbatim>\<open>robot.py\<close>, which is not among the
  sources. A robot is constructed from \<open>name\<close>, \<open>serial\<close>, \<open>secret\<close>, \<open>traits\<close> and the
  authentication provider and keeps them; \<open>oid\<close> is the identity of the object.
\<close>

record robot =
  oid :: nat
  name :: json
  serial :: json
  secret :: json
  traits :: json
  robot_auth_provider :: auth_provider

definition Robot_init :: "json \<Rightarrow> json \<Rightarrow> json \<Rightarrow> json \<Rightarrow> auth_provider \<Rightarrow> world \<Rightarrow> robot \<times> world" where
  "Robot_init n sr k t p w =
     (\<lparr>oid = next_oid w, name = n, serial = sr, secret = k, traits = t, robot_auth_provider = p\<rparr>,
      w\<lparr>next_oid := Suc (next_oid w)\<rparr>)"

text \<open>
  What the sources use and do not define: \<open>str_of\<close> is \<^verbatim>\<open>str()\<close> of a value that is not a
  string, \<open>urljoin\<close> is \<^verbatim>\<open>urllib.parse.urljoin\<close>, \<open>robot_eq\<close> is the equality of two
  robots (\<^verbatim>\<open>Robot.__eq__\<close>), \<open>set_order\<close> gives the order in which a set of robots is
  iterated (from its elements in the order they were added), and
  \<open>robot_persistent_maps\<close> is the robot's \<^verbatim>\<open>persistent_maps\<close> attribute, which talks to the
  robot by itself.
\<close>

record library =
  str_of :: "json \<Rightarrow> string"
  urljoin :: "string \<Rightarrow> string \<Rightarrow> string"
  robot_eq :: "robot \<Rightarrow> robot \<Rightarrow> bool"
  set_order :: "robot list \<Rightarrow> robot list"
  robot_persistent_maps :: "robot \<Rightarrow> world \<Rightarrow> (error + json) \<times> world"

text \<open>\<^verbatim>\<open>'{}'.format(v)\<close>: a string as it is, anything else through \<^verbatim>\<open>str()\<close>.\<close>

definition py_format :: "library \<Rightarrow> json \<Rightarrow> string" where
  "py_format lib v = (case v of JStr s \<Rightarrow> s | _ \<Rightarrow> str_of lib v)"

text \<open>
  \<^verbatim>\<open>generate_headers\<close> of the two providers. A call returns the headers and is recorded in
  the world, so that what calls the method, and how often, can be read off the world.
\<close>

definition generate_headers ::
  "library \<Rightarrow> auth_provider \<Rightarrow> world \<Rightarrow> (string \<times> string) list \<times> world" where
  "generate_headers lib p w =
     ((case p of
         BasicAuthProvider access_token \<Rightarrow>
           [(''Accept'', ''application/vnd.neato.nucleo.v1''),
            (''Authorization'', ''Token token='' @ py_format lib access_token)]
       | OAuthProvider oauth_token \<Rightarrow>
           [(''Accept'', ''application/vnd.neato.beehive.v1+json''),
            (''Authorization'', ''Bearer '' @ oauth_token)]),
      w\<lparr>generate_headers_log := generate_headers_log w @ [p]\<rparr>)"

text \<open>
  \<^verbatim>\<open>set.add\<close> on the set of robots, kept as the list of its elements in the order they
  were added: nothing is added when the set holds the object or one equal to it.
\<close>

definition set_add :: "library \<Rightarrow> robot \<Rightarrow> robot list \<Rightarrow> robot list" where
  "set_add lib r xs = (if \<exists>x \<in> set xs. x = r \<or> robot_eq lib x r then xs else xs @ [r])"

section \<open>Session\<close>

text \<open>
  The fields of a \<^verbatim>\<open>Session\<close>; the leading underscore of \<^verbatim>\<open>_robots\<close>, \<^verbatim>\<open>_maps\<close>,
  \<^verbatim>\<open>_headers\<close> and \<^verbatim>\<open>_persistent_maps\<close> is written \<open>priv_\<close>.
\<close>

record session =
  auth_provider :: auth_provider
  priv_robots :: "robot list"
  robot_serials :: "(json \<times> json) list"
  priv_maps :: "(json \<times> json) list"
  priv_headers :: "(string \<times> string) list"
  priv_persistent_maps :: "(json \<times> json) list"

text \<open>
  A method returns its value or the exception it raised, together with the session and
  the world as it left them.
\<close>

type_synonym 'a outcome = "(error + 'a) \<times> session \<times> world"

definition ENDPOINT :: string where
  "ENDPOINT = ''https://beehive.neatocloud.com/''"

text \<open>
  The constructor: it calls \<^verbatim>\<open>generate_headers\<close> of the provider and keeps what the call
  returns.
\<close>

definition Session_init :: "library \<Rightarrow> auth_provider \<Rightarrow> world \<Rightarrow> session \<times> world" where
  "Session_init lib p w =
     (case generate_headers lib p w of
        (headers, w') \<Rightarrow>
          (\<lparr>auth_provider = p,
            priv_robots = [],
            robot_serials = [],
            priv_maps = [],
            priv_headers = headers,
            priv_persistent_maps = []\<rparr>,
           w'))"

text \<open>The two authenticated requests of a session.\<close>

definition robots_request :: "library \<Rightarrow> session \<Rightarrow> request" where
  "robots_request lib s =
     \<lparr>req_verb = GET,
      req_url = urljoin lib ENDPOINT ''users/me/robots'',
      req_headers = Some (priv_headers s),
      req_json = None,
      req_stream = False,
      req_timeout = None\<rparr>"

definition maps_request :: "library \<Rightarrow> session \<Rightarrow> robot \<Rightarrow> request" where
  "maps_request lib s r =
     \<lparr>req_verb = GET,
      req_url = urljoin lib ENDPOINT (''users/me/robots/'' @ py_format lib (serial r) @ ''/maps''),
      req_headers = Some (priv_headers s),
      req_json = None,
      req_stream = False,
      req_timeout = None\<rparr>"

text \<open>
  The loop of \<^verbatim>\<open>refresh_robots\<close> over the device records: the four fields are read in
  the order of the constructor's arguments, and the robot is added to \<^verbatim>\<open>_robots\<close>.
\<close>

fun add_robots :: "library \<Rightarrow> json list \<Rightarrow> session \<Rightarrow> world \<Rightarrow> unit outcome" where
  "add_robots lib [] s w = (Inr (), s, w)"
| "add_robots lib (d # ds) s w =
     (case subscript d ''name'' of
        Inl e \<Rightarrow> (Inl e, s, w)
      | Inr n \<Rightarrow>
     (case subscript d ''serial'' of
        Inl e \<Rightarrow> (Inl e, s, w)
      | Inr sr \<Rightarrow>
     (case subscript d ''secret_key'' of
        Inl e \<Rightarrow> (Inl e, s, w)
      | Inr k \<Rightarrow>
     (case subscript d ''traits'' of
        Inl e \<Rightarrow> (Inl e, s, w)
      | Inr t \<Rightarrow>
          (case Robot_init n sr k t (auth_provider s) w of
             (r, w') \<Rightarrow> add_robots lib ds (s\<lparr>priv_robots := set_add lib r (priv_robots s)\<rparr>) w')))))"

definition refresh_robots :: "library \<Rightarrow> session \<Rightarrow> world \<Rightarrow> unit outcome" where
  "refresh_robots lib s w =
     (case http_request (robots_request lib s) w of
        (Inl e, w1) \<Rightarrow> (Inl e, s, w1)
      | (Inr resp, w1) \<Rightarrow>
     (case raise_for_status resp of
        Inl e \<Rightarrow> (Inl e, s, w1)
      | Inr _ \<Rightarrow>
     (case response_json resp of
        Inl e \<Rightarrow> (Inl e, s, w1)
      | Inr j \<Rightarrow>
     (case py_iter j of
        Inl e \<Rightarrow> (Inl e, s, w1)
      | Inr ds \<Rightarrow> add_robots lib ds s w1))))"

text \<open>The \<^verbatim>\<open>robots\<close> property.\<close>

definition robots :: "library \<Rightarrow> session \<Rightarrow> world \<Rightarrow> (robot list) outcome" where
  "robots lib s w =
     (if priv_robots s = [] then
        (case refresh_robots lib s w of
           (Inl e, s', w') \<Rightarrow> (Inl e, s', w')
         | (Inr _, s', w') \<Rightarrow> (Inr (priv_robots s'), s', w'))
      else (Inr (priv_robots s), s, w))"

text \<open>The loop of \<^verbatim>\<open>refresh_maps\<close> over the robots, in the order the set gives them.\<close>

fun fetch_maps :: "library \<Rightarrow> robot list \<Rightarrow> session \<Rightarrow> world \<Rightarrow> unit outcome" where
  "fetch_maps lib [] s w = (Inr (), s, w)"
| "fetch_maps lib (r # rs) s w =
     (case http_request (maps_request lib s r) w of
        (Inl e, w1) \<Rightarrow> (Inl e, s, w1)
      | (Inr resp2, w1) \<Rightarrow>
     (case raise_for_status resp2 of
        Inl e \<Rightarrow> (Inl e, s, w1)
      | Inr _ \<Rightarrow>
     (case response_json resp2 of
        Inl e \<Rightarrow> (Inl e, s, w1)
      | Inr j \<Rightarrow>
     (case dict_update (serial r) j (priv_maps s) of
        Inl e \<Rightarrow> (Inl e, s, w1)
      | Inr m \<Rightarrow> fetch_maps lib rs (s\<lparr>priv_maps := m\<rparr>) w1))))"

definition refresh_maps :: "library \<Rightarrow> session \<Rightarrow> world \<Rightarrow> unit outcome" where
  "refresh_maps lib s w =
     (case robots lib s w of
        (Inl e, s', w') \<Rightarrow> (Inl e, s', w')
      | (Inr rs, s', w') \<Rightarrow> fetch_maps lib (set_order lib rs) s' w')"

text \<open>The \<^verbatim>\<open>maps\<close> property.\<close>

definition maps :: "library \<Rightarrow> session \<Rightarrow> world \<Rightarrow> ((json \<times> json) list) outcome" where
  "maps lib s w =
     (case refresh_maps lib s w of
        (Inl e, s', w') \<Rightarrow> (Inl e, s', w')
      | (Inr _, s', w') \<Rightarrow> (Inr (priv_maps s'), s', w'))"

text \<open>
  \<^verbatim>\<open>get_map_image\<close>, a static method: no session. \<open>None\<close> is the default of \<^verbatim>\<open>dest_path\<close>;
  \<^verbatim>\<open>if dest_path:\<close> also fails for the empty string. Copying reads the stream to its
  end. What a content encoding does to the bytes is not modelled.
\<close>

definition image_request :: "string \<Rightarrow> request" where
  "image_request u =
     \<lparr>req_verb = GET,
      req_url = u,
      req_headers = None,
      req_json = None,
      req_stream = True,
      req_timeout = Some 10\<rparr>"

definition save_image :: "string \<Rightarrow> string \<Rightarrow> response \<Rightarrow> world \<Rightarrow> (error + raw_stream) \<times> world" where
  "save_image u dest_path img w =
     (case index (py_rsplit CHR ''/'' 2 u) 1 of
        Inl e \<Rightarrow> (Inl e, w)
      | Inr a \<Rightarrow>
     (case index (py_rsplit CHR ''/'' 1 u) 1 of
        Inl e \<Rightarrow> (Inl e, w)
      | Inr b \<Rightarrow>
     (case index (py_split CHR ''?'' (a @ ''-'' @ b)) 0 of
        Inl e \<Rightarrow> (Inl e, w)
      | Inr image_filename \<Rightarrow>
     (case raise_for_status img of
        Inl e \<Rightarrow> (Inl e, w)
      | Inr _ \<Rightarrow>
          (if open_fails w (path_join dest_path image_filename) then (Inl OSError, w)
           else (Inr ((raw img)\<lparr>unread := [], decode_content := True\<rparr>),
                 w\<lparr>files := (files w)(path_join dest_path image_filename \<mapsto> unread (raw img))\<rparr>))))))"

definition get_map_image :: "string \<Rightarrow> string option \<Rightarrow> world \<Rightarrow> (error + raw_stream) \<times> world" where
  "get_map_image u dest_path w =
     (case http_request (image_request u) w of
        (Inl e, w1) \<Rightarrow> (Inl e, w1)
      | (Inr img, w1) \<Rightarrow>
          (case dest_path of
             None \<Rightarrow> (Inr (raw img), w1)
           | Some p \<Rightarrow> if p = [] then (Inr (raw img), w1) else save_image u p img w1))"

text \<open>
  The \<^verbatim>\<open>persistent_maps\<close> property: a dict built from every robot's own
  \<^verbatim>\<open>persistent_maps\<close>.
\<close>

fun collect_persistent_maps ::
  "library \<Rightarrow> robot list \<Rightarrow> (json \<times> json) list \<Rightarrow> world \<Rightarrow> (error + (json \<times> json) list) \<times> world" where
  "collect_persistent_maps lib [] acc w = (Inr acc, w)"
| "collect_persistent_maps lib (r # rs) acc w =
     (case robot_persistent_maps lib r w of
        (Inl e, w1) \<Rightarrow> (Inl e, w1)
      | (Inr v, w1) \<Rightarrow>
          (case dict_update (serial r) v acc of
             Inl e \<Rightarrow> (Inl e, w1)
           | Inr acc' \<Rightarrow> collect_persistent_maps lib rs acc' w1))"

definition persistent_maps :: "library \<Rightarrow> session \<Rightarrow> world \<Rightarrow> ((json \<times> json) list) outcome" where
  "persistent_maps lib s w =
     (case robots lib s w of
        (Inl e, s', w') \<Rightarrow> (Inl e, s', w')
      | (Inr rs, s', w') \<Rightarrow>
          (case collect_persistent_maps lib (set_order lib rs) [] w' of
             (Inl e, w'') \<Rightarrow> (Inl e, s', w'')
           | (Inr d, w'') \<Rightarrow> (Inr d, s', w'')))"

section \<open>Account\<close>

definition login_request :: "library \<Rightarrow> string \<Rightarrow> string \<Rightarrow> string \<Rightarrow> request" where
  "login_request lib email password token =
     \<lparr>req_verb = POST,
      req_url = urljoin lib ENDPOINT ''sessions'',
      req_headers = Some [(''Accept'', ''application/vnd.neato.nucleo.v1'')],
      req_json = Some (JObj [(''email'', JStr email),
                             (''password'', JStr password),
                             (''platform'', JStr ''ios''),
                             (''token'', JStr token)]),
      req_stream = False,
      req_timeout = None\<rparr>"

definition login_basic :: "library \<Rightarrow> string \<Rightarrow> string \<Rightarrow> world \<Rightarrow> (error + session) \<times> world" where
  "login_basic lib email password w =
     (case os_urandom 64 w of
        (bytes, w0) \<Rightarrow>
     (case http_request (login_request lib email password (hexlify bytes)) w0 of
        (Inl e, w1) \<Rightarrow> (Inl e, w1)
      | (Inr resp, w1) \<Rightarrow>
     (case raise_for_status resp of
        Inl e \<Rightarrow> (Inl e, w1)
      | Inr _ \<Rightarrow>
     (case response_json resp of
        Inl e \<Rightarrow> (Inl e, w1)
      | Inr j \<Rightarrow>
     (case subscript j ''access_token'' of
        Inl e \<Rightarrow> (Inl e, w1)
      | Inr access_token \<Rightarrow>
          (case Session_init lib (BasicAuthProvider access_token) w1 of
             (s, w2) \<Rightarrow> (Inr s, w2)))))))"

definition login_oauth :: "library \<Rightarrow> string \<Rightarrow> world \<Rightarrow> session \<times> world" where
  "login_oauth lib oauth_token w = Session_init lib (OAuthProvider oauth_token) w"

section \<open>What a refresh constructs\<close>

text \<open>
  \<open>constructed_from p i d r\<close>: the robot \<open>r\<close> is the object with identity \<open>i\<close> that
  \<^verbatim>\<open>refresh_robots\<close> constructs from the device record \<open>d\<close>: \<open>name\<close>, \<open>serial\<close> and
  \<open>traits\<close> are the record's fields of these names, \<open>secret\<close> is its field \<open>secret_key\<close>,
  and the provider is \<open>p\<close>.
\<close>

definition constructed_from :: "auth_provider \<Rightarrow> nat \<Rightarrow> json \<Rightarrow> robot \<Rightarrow> bool" where
  "constructed_from p i d r =
     (oid r = i \<and>
      subscript d ''name'' = Inr (name r) \<and>
      subscript d ''serial'' = Inr (serial r) \<and>
      subscript d ''secret_key'' = Inr (secret r) \<and>
      subscript d ''traits'' = Inr (traits r) \<and>
      robot_auth_provider r = p)"

section \<open>Concrete surroundings for the examples\<close>

text \<open>
  An instance of the library in which joining a URL appends the relative part, two robots
  are equal when they are the same object, and a set is iterated in the order of
  insertion. No example formats a value that is not a string.
\<close>

definition example_library :: library where
  "example_library =
     \<lparr>str_of = (\<lambda>v. ''None''),
      urljoin = (\<lambda>base u. base @ u),
      robot_eq = (\<lambda>a b. oid a = oid b),
      set_order = (\<lambda>xs. xs),
      robot_persistent_maps = (\<lambda>r w. (Inr (JArr []), w))\<rparr>"

text \<open>A world in which nothing has happened yet, for a given server.\<close>

definition fresh_world :: "(request list \<Rightarrow> request \<Rightarrow> reply) \<Rightarrow> world" where
  "fresh_world srv =
     \<lparr>request_log = [],
      server = srv,
      files = (\<lambda>p. None),
      open_fails = (\<lambda>p. False),
      urandom_bytes = (\<lambda>i. of_nat i),
      urandom_pos = 0,
      next_oid = 0,
      generate_headers_log = []\<rparr>"

definition json_response :: "nat \<Rightarrow> json \<Rightarrow> reply" where
  "json_response st j =
     Response \<lparr>status_code = st, json_body = Some j, raw = \<lparr>unread = [], decode_content = False\<rparr>\<rparr>"

definition device :: "string \<Rightarrow> string \<Rightarrow> json" where
  "device n sr =
     JObj [(''name'', JStr n), (''serial'', JStr sr), (''secret_key'', JStr ''K''), (''traits'', JArr [])]"

text \<open>An account without robots.\<close>

definition no_devices :: "request list \<Rightarrow> request \<Rightarrow> reply" where
  "no_devices h q = json_response 200 (JArr [])"

text \<open>
  An account with the robots S1, S2 and S3; the maps of S2 are answered with the status
  \<open>st\<close>.
\<close>

definition three_devices :: "nat \<Rightarrow> request list \<Rightarrow> request \<Rightarrow> reply" where
  "three_devices st h q =
     (if req_url q = ENDPOINT @ ''users/me/robots'' then
        json_response 200 (JArr [device ''R1'' ''S1'', device ''R2'' ''S2'', device ''R3'' ''S3''])
      else if req_url q = ENDPOINT @ ''users/me/robots/S2/maps'' then json_response st (JArr [])
      else json_response 200 (JArr [JStr ''m'']))"

text \<open>A server of map images that answers with the status \<open>st\<close> and three bytes.\<close>

definition image_server :: "nat \<Rightarrow> request list \<Rightarrow> request \<Rightarrow> reply" where
  "image_server st h q =
     Response \<lparr>status_code = st, json_body = None, raw = \<lparr>unread = ''PNG'', decode_content = False\<rparr>\<rparr>"

text \<open>A server that accepts every login and hands out the token \<open>T0K\<close>.\<close>

definition login_server :: "request list \<Rightarrow> request \<Rightarrow> reply" where
  "login_server h q = json_response 200 (JObj [(''access_token'', JStr ''T0K'')])"

text \<open>The session that \<^verbatim>\<open>login_oauth\<close> returns for the token \<open>tok\<close>.\<close>

definition example_session :: session where
  "example_session = fst (login_oauth example_library ''tok'' (fresh_world no_devices))"

text \<open>The robot that the example session makes of the device with this name and serial.\<close>

definition example_robot :: "nat \<Rightarrow> string \<Rightarrow> string \<Rightarrow> robot" where
  "example_robot i n sr =
     \<lparr>oid = i, name = JStr n, serial = JStr sr, secret = JStr ''K'', traits = JArr [],
      robot_auth_provider = OAuthProvider ''tok''\<rparr>"

lemmas model_defs =
  py_iter_def subscript_def index_def hashable_def dict_update_def py_rsplit_def path_join_def
  hex_digit_def hexlify_def http_request_def raise_for_status_def response_json_def
  os_urandom_def Robot_init_def py_format_def generate_headers_def set_add_def ENDPOINT_def
  Session_init_def robots_request_def maps_request_def refresh_robots_def robots_def
  refresh_maps_def maps_def image_request_def save_image_def get_map_image_def
  persistent_maps_def login_request_def login_basic_def login_oauth_def

lemmas example_defs =
  example_library_def fresh_world_def json_response_def device_def no_devices_def
  three_devices_def image_server_def login_server_def example_session_def example_robot_def

section \<open>How the operations change the session and the world\<close>

text \<open>
  Each operation is followed through the session and the world: which fields it can
  change and which requests it adds to the log.
\<close>

lemma http_request_cases:
  "http_request q w = (res, w') \<Longrightarrow> w' = w\<lparr>request_log := request_log w @ [q]\<rparr> \<and>
     (case server w (request_log w) q of Raises \<Rightarrow> res = Inl RequestException | Response r \<Rightarrow> res = Inr r)"
  by (auto simp add: http_request_def split: reply.splits)

lemma add_robots_frame:
  "add_robots lib ds s w = (res, s', w') \<Longrightarrow>
     \<exists>rs n. s' = s\<lparr>priv_robots := rs\<rparr> \<and> w' = w\<lparr>next_oid := n\<rparr>"
proof (induction ds arbitrary: s w)
  case Nil
  then have "s' = s\<lparr>priv_robots := priv_robots s\<rparr>" "w' = w\<lparr>next_oid := next_oid w\<rparr>" by simp_all
  then show ?case by blast
next
  case (Cons d ds)
  show ?case
  proof (cases "add_robots lib (d # ds) s w = (res, s, w)")
    case True
    with Cons.prems have "s' = s\<lparr>priv_robots := priv_robots s\<rparr>" "w' = w\<lparr>next_oid := next_oid w\<rparr>" by simp_all
    then show ?thesis by blast
  next
    case False
    with Cons.prems obtain r where
      "add_robots lib ds (s\<lparr>priv_robots := r\<rparr>) (w\<lparr>next_oid := Suc (next_oid w)\<rparr>) = (res, s', w')"
      by (auto simp add: Robot_init_def split: sum.splits)
    from Cons.IH [OF this] show ?thesis by auto
  qed
qed

lemma set_add_grows: "\<exists>new. set_add lib r xs = xs @ new"
  by (simp add: set_add_def)

lemma add_robots_grows:
  "add_robots lib ds s w = (res, s', w') \<Longrightarrow> \<exists>new. priv_robots s' = priv_robots s @ new"
proof (induction ds arbitrary: s w)
  case Nil
  then show ?case by simp
next
  case (Cons d ds)
  show ?case
  proof (cases "add_robots lib (d # ds) s w = (res, s, w)")
    case True
    with Cons.prems show ?thesis by simp
  next
    case False
    with Cons.prems obtain r w1 where
      "add_robots lib ds (s\<lparr>priv_robots := set_add lib r (priv_robots s)\<rparr>) w1 = (res, s', w')"
      by (auto simp add: Robot_init_def split: sum.splits)
    from Cons.IH [OF this] obtain new where "priv_robots s' = set_add lib r (priv_robots s) @ new"
      by auto
    with set_add_grows [of lib r "priv_robots s"] show ?thesis by auto
  qed
qed

lemma refresh_robots_shape:
  assumes "refresh_robots lib s w = (res, s', w')"
  shows "\<exists>rs n. s' = s\<lparr>priv_robots := rs\<rparr> \<and>
           w' = w\<lparr>request_log := request_log w @ [robots_request lib s], next_oid := n\<rparr>"
proof -
  obtain r1 w1 where h: "http_request (robots_request lib s) w = (r1, w1)"
    by (cases "http_request (robots_request lib s) w")
  then have w1: "w1 = w\<lparr>request_log := request_log w @ [robots_request lib s]\<rparr>"
    using http_request_cases by blast
  have keep: "s = s\<lparr>priv_robots := priv_robots s\<rparr>" "w1 = w1\<lparr>next_oid := next_oid w1\<rparr>"
    by simp_all
  show ?thesis
  proof (cases "\<exists>ds. add_robots lib ds s w1 = (res, s', w')")
    case True
    then obtain ds where "add_robots lib ds s w1 = (res, s', w')" by blast
    from add_robots_frame [OF this] w1 show ?thesis by auto
  next
    case False
    with assms h have "s' = s \<and> w' = w1"
      by (auto simp add: refresh_robots_def split: sum.splits)
    with keep w1 show ?thesis
      by metis
  qed
qed


lemma robots_shape:
  assumes "robots lib s w = (res, s', w')"
  shows "\<exists>rs n. s' = s\<lparr>priv_robots := rs\<rparr> \<and> res \<in> {Inr rs} \<union> range Inl \<and>
           w' = w\<lparr>request_log := request_log w @ (if priv_robots s = [] then [robots_request lib s] else []),
                  next_oid := n\<rparr>"
proof (cases "priv_robots s = []")
  case True
  obtain r0 s0 w0 where r: "refresh_robots lib s w = (r0, s0, w0)"
    by (cases "refresh_robots lib s w")
  with assms True have "s' = s0" "w' = w0" "res \<in> {Inr (priv_robots s0)} \<union> range Inl"
    by (auto simp add: robots_def split: sum.splits)
  with refresh_robots_shape [OF r] True show ?thesis by auto
next
  case False
  with assms have "s' = s" "res = Inr (priv_robots s)" "w' = w"
    by (auto simp add: robots_def)
  with False show ?thesis
    by (intro exI [of _ "priv_robots s"] exI [of _ "next_oid w"]) simp
qed

lemma maps_request_priv_maps [simp]: "maps_request lib (s\<lparr>priv_maps := m\<rparr>) = maps_request lib s"
  by (simp add: maps_request_def fun_eq_iff)

lemma fetch_maps_shape:
  "fetch_maps lib rs s w = (res, s', w') \<Longrightarrow>
     \<exists>m k. k \<le> length rs \<and> (res = Inr () \<longrightarrow> k = length rs) \<and> s' = s\<lparr>priv_maps := m\<rparr> \<and>
       w' = w\<lparr>request_log := request_log w @ map (maps_request lib s) (take k rs)\<rparr>"
proof (induction rs arbitrary: s w)
  case Nil
  then have "s' = s" "w' = w" "res = Inr ()"
    by simp_all
  then show ?case
    by (intro exI [of _ "priv_maps s"] exI [of _ 0]) simp
next
  case (Cons r rs)
  obtain r1 w1 where h: "http_request (maps_request lib s r) w = (r1, w1)"
    by (cases "http_request (maps_request lib s r) w")
  then have w1: "w1 = w\<lparr>request_log := request_log w @ [maps_request lib s r]\<rparr>"
    using http_request_cases by blast
  show ?case
  proof (cases "\<exists>m. fetch_maps lib rs (s\<lparr>priv_maps := m\<rparr>) w1 = (res, s', w')")
    case True
    then obtain m where "fetch_maps lib rs (s\<lparr>priv_maps := m\<rparr>) w1 = (res, s', w')" by blast
    from Cons.IH [OF this] obtain m' k where
      k: "k \<le> length rs" "res = Inr () \<longrightarrow> k = length rs" "s' = s\<lparr>priv_maps := m'\<rparr>"
        "w' = w1\<lparr>request_log := request_log w1 @ map (maps_request lib s) (take k rs)\<rparr>"
      by auto
    have "Suc k \<le> length (r # rs)" "res = Inr () \<longrightarrow> Suc k = length (r # rs)"
      "w' = w\<lparr>request_log := request_log w @ map (maps_request lib s) (take (Suc k) (r # rs))\<rparr>"
      using k w1 by simp_all
    with k(3) show ?thesis by blast
  next
    case False
    with Cons.prems h have "s' = s" "w' = w1" "res \<noteq> Inr ()"
      by (auto split: sum.splits)
    then show ?thesis using w1
      by (intro exI [of _ "priv_maps s"] exI [of _ "Suc 0"]) simp
  qed
qed

lemma maps_request_priv_robots [simp]: "maps_request lib (s\<lparr>priv_robots := rs\<rparr>) = maps_request lib s"
  by (simp add: maps_request_def fun_eq_iff)

lemma refresh_maps_shape:
  assumes "refresh_maps lib s w = (res, s', w')"
  shows "\<exists>rs m n k. k \<le> length (set_order lib rs) \<and> (res = Inr () \<longrightarrow> k = length (set_order lib rs)) \<and>
           s' = s\<lparr>priv_robots := rs, priv_maps := m\<rparr> \<and>
           w' = w\<lparr>request_log := request_log w @ (if priv_robots s = [] then [robots_request lib s] else [])
                                   @ map (maps_request lib s) (take k (set_order lib rs)),
                  next_oid := n\<rparr>"
proof -
  obtain r0 s0 w0 where r: "robots lib s w = (r0, s0, w0)"
    by (cases "robots lib s w")
  from robots_shape [OF r] obtain rs n where
    0: "s0 = s\<lparr>priv_robots := rs\<rparr>" "r0 \<in> {Inr rs} \<union> range Inl"
       "w0 = w\<lparr>request_log := request_log w @ (if priv_robots s = [] then [robots_request lib s] else []),
               next_oid := n\<rparr>"
    by blast
  show ?thesis
  proof (cases r0)
    case (Inl e)
    with assms r have "res \<noteq> Inr ()" "s' = s0" "w' = w0"
      by (auto simp add: refresh_maps_def)
    with 0 show ?thesis
      by (intro exI [of _ rs] exI [of _ "priv_maps s"] exI [of _ n] exI [of _ 0]) simp
  next
    case (Inr x)
    with 0 have "x = rs" by auto
    with Inr assms r have f: "fetch_maps lib (set_order lib rs) s0 w0 = (res, s', w')"
      by (simp add: refresh_maps_def)
    from fetch_maps_shape [OF f] obtain m k where
      "k \<le> length (set_order lib rs)" "res = Inr () \<longrightarrow> k = length (set_order lib rs)"
      "s' = s0\<lparr>priv_maps := m\<rparr>"
      "w' = w0\<lparr>request_log := request_log w0 @ map (maps_request lib s0) (take k (set_order lib rs))\<rparr>"
      by blast
    with 0 show ?thesis
      by (intro exI [of _ rs] exI [of _ m] exI [of _ n] exI [of _ k]) simp
  qed
qed

lemma fetch_maps_stops:
  assumes "\<forall>i<length pre. hashable (serial (pre ! i)) \<and>
             (\<exists>resp. server w (request_log w @ map (maps_request lib s) (take i pre))
                        (maps_request lib s (pre ! i)) = Response resp \<and>
                     raise_for_status resp = Inr () \<and> json_body resp = Some (body (pre ! i)))"
      and "server w (request_log w @ map (maps_request lib s) pre) (maps_request lib s r) = Response bad"
      and "raise_for_status bad = Inl e"
  shows "fetch_maps lib (pre @ r # post) s w =
           (Inl e,
            s\<lparr>priv_maps := foldl (\<lambda>m x. dict_set (serial x) (body x) m) (priv_maps s) pre\<rparr>,
            w\<lparr>request_log := request_log w @ map (maps_request lib s) (pre @ [r])\<rparr>)"
  using assms
proof (induction pre arbitrary: s w)
  case Nil
  then show ?case by (simp add: http_request_def)
next
  case (Cons x pre)
  let ?s1 = "s\<lparr>priv_maps := dict_set (serial x) (body x) (priv_maps s)\<rparr>"
  let ?w1 = "w\<lparr>request_log := request_log w @ [maps_request lib s x]\<rparr>"
  from Cons.prems(1) have "hashable (serial ((x # pre) ! 0)) \<and>
             (\<exists>resp. server w (request_log w @ map (maps_request lib s) (take 0 (x # pre)))
                        (maps_request lib s ((x # pre) ! 0)) = Response resp \<and>
                     raise_for_status resp = Inr () \<and> json_body resp = Some (body ((x # pre) ! 0)))"
    by blast
  then obtain resp where first: "hashable (serial x)"
      "server w (request_log w) (maps_request lib s x) = Response resp"
      "raise_for_status resp = Inr ()" "json_body resp = Some (body x)"
    by auto
  then have step: "fetch_maps lib ((x # pre) @ r # post) s w = fetch_maps lib (pre @ r # post) ?s1 ?w1"
    by (simp add: http_request_def response_json_def dict_update_def)
  have rest: "\<forall>i<length pre. hashable (serial (pre ! i)) \<and>
             (\<exists>resp. server ?w1 (request_log ?w1 @ map (maps_request lib ?s1) (take i pre))
                        (maps_request lib ?s1 (pre ! i)) = Response resp \<and>
                     raise_for_status resp = Inr () \<and> json_body resp = Some (body (pre ! i)))"
  proof (intro allI impI)
    fix i assume "i < length pre"
    then have "Suc i < length (x # pre)" by simp
    with Cons.prems(1) have "hashable (serial ((x # pre) ! Suc i)) \<and>
             (\<exists>resp. server w (request_log w @ map (maps_request lib s) (take (Suc i) (x # pre)))
                        (maps_request lib s ((x # pre) ! Suc i)) = Response resp \<and>
                     raise_for_status resp = Inr () \<and> json_body resp = Some (body ((x # pre) ! Suc i)))"
      by blast
    then show "hashable (serial (pre ! i)) \<and>
             (\<exists>resp. server ?w1 (request_log ?w1 @ map (maps_request lib ?s1) (take i pre))
                        (maps_request lib ?s1 (pre ! i)) = Response resp \<and>
                     raise_for_status resp = Inr () \<and> json_body resp = Some (body (pre ! i)))"
      by simp
  qed
  have bad: "server ?w1 (request_log ?w1 @ map (maps_request lib ?s1) pre) (maps_request lib ?s1 r) = Response bad"
    using Cons.prems(2) by simp
  from Cons.IH [OF rest bad Cons.prems(3)] step show ?case by simp
qed

text \<open>The two fields that no operation touches can be set to anything: the operations carry them along.\<close>

lemma add_robots_carries:
  assumes "\<And>s x. f (s\<lparr>priv_robots := x\<rparr>) = (f s)\<lparr>priv_robots := x\<rparr>"
      and "\<And>s. priv_robots (f s) = priv_robots s"
      and "\<And>s. auth_provider (f s) = auth_provider s"
  shows "add_robots lib ds (f s) w =
           (case add_robots lib ds s w of (res, s', w') \<Rightarrow> (res, f s', w'))"
proof (induction ds arbitrary: s w)
  case Nil
  show ?case by simp
next
  case (Cons d ds)
  have "add_robots lib ds ((f s)\<lparr>priv_robots := x\<rparr>) v =
          (case add_robots lib ds (s\<lparr>priv_robots := x\<rparr>) v of (res, s', w') \<Rightarrow> (res, f s', w'))" for x v
    using Cons.IH [of "s\<lparr>priv_robots := x\<rparr>" v] by (simp add: assms(1))
  then show ?case
    by (simp add: assms(2,3) split: sum.splits prod.splits)
qed

lemma add_robots_unread:
  "add_robots lib ds (s\<lparr>robot_serials := a, priv_persistent_maps := b\<rparr>) w =
     (case add_robots lib ds s w of
        (res, s', w') \<Rightarrow> (res, s'\<lparr>robot_serials := a, priv_persistent_maps := b\<rparr>, w'))"
  by (rule add_robots_carries) simp_all

lemma robots_request_unread [simp]:
  "robots_request lib (s\<lparr>robot_serials := a, priv_persistent_maps := b\<rparr>) = robots_request lib s"
  by (simp add: robots_request_def)

lemma maps_request_unread [simp]:
  "maps_request lib (s\<lparr>robot_serials := a, priv_persistent_maps := b\<rparr>) = maps_request lib s"
  by (simp add: maps_request_def fun_eq_iff)

lemma refresh_robots_unread:
  "refresh_robots lib (s\<lparr>robot_serials := a, priv_persistent_maps := b\<rparr>) w =
     (case refresh_robots lib s w of
        (res, s', w') \<Rightarrow> (res, s'\<lparr>robot_serials := a, priv_persistent_maps := b\<rparr>, w'))"
  by (simp add: refresh_robots_def add_robots_unread split: sum.splits prod.splits)

lemma robots_unread:
  "robots lib (s\<lparr>robot_serials := a, priv_persistent_maps := b\<rparr>) w =
     (case robots lib s w of
        (res, s', w') \<Rightarrow> (res, s'\<lparr>robot_serials := a, priv_persistent_maps := b\<rparr>, w'))"
  by (simp add: robots_def refresh_robots_unread split: sum.splits prod.splits)

lemma fetch_maps_carries:
  assumes "\<And>s x. f (s\<lparr>priv_maps := x\<rparr>) = (f s)\<lparr>priv_maps := x\<rparr>"
      and "\<And>s. priv_maps (f s) = priv_maps s"
      and "\<And>s. priv_headers (f s) = priv_headers s"
  shows "fetch_maps lib rs (f s) w =
           (case fetch_maps lib rs s w of (res, s', w') \<Rightarrow> (res, f s', w'))"
proof (induction rs arbitrary: s w)
  case Nil
  show ?case by simp
next
  case (Cons r rs)
  have q: "maps_request lib (f s) r = maps_request lib s r"
    by (simp add: maps_request_def assms(3))
  have "fetch_maps lib rs ((f s)\<lparr>priv_maps := x\<rparr>) v =
          (case fetch_maps lib rs (s\<lparr>priv_maps := x\<rparr>) v of (res, s', w') \<Rightarrow> (res, f s', w'))" for x v
    using Cons.IH [of "s\<lparr>priv_maps := x\<rparr>" v] by (simp add: assms(1))
  then show ?case
    by (simp add: assms(2) q split: sum.splits prod.splits)
qed

lemma fetch_maps_unread:
  "fetch_maps lib rs (s\<lparr>robot_serials := a, priv_persistent_maps := b\<rparr>) w =
     (case fetch_maps lib rs s w of
        (res, s', w') \<Rightarrow> (res, s'\<lparr>robot_serials := a, priv_persistent_maps := b\<rparr>, w'))"
  by (rule fetch_maps_carries) simp_all

lemma refresh_maps_unread:
  "refresh_maps lib (s\<lparr>robot_serials := a, priv_persistent_maps := b\<rparr>) w =
     (case refresh_maps lib s w of
        (res, s', w') \<Rightarrow> (res, s'\<lparr>robot_serials := a, priv_persistent_maps := b\<rparr>, w'))"
  by (simp add: refresh_maps_def robots_unread fetch_maps_unread split: sum.splits prod.splits)

lemma maps_unread:
  "maps lib (s\<lparr>robot_serials := a, priv_persistent_maps := b\<rparr>) w =
     (case maps lib s w of
        (res, s', w') \<Rightarrow> (res, s'\<lparr>robot_serials := a, priv_persistent_maps := b\<rparr>, w'))"
  by (simp add: maps_def refresh_maps_unread split: sum.splits prod.splits)

lemma persistent_maps_unread:
  "persistent_maps lib (s\<lparr>robot_serials := a, priv_persistent_maps := b\<rparr>) w =
     (case persistent_maps lib s w of
        (res, s', w') \<Rightarrow> (res, s'\<lparr>robot_serials := a, priv_persistent_maps := b\<rparr>, w'))"
  by (simp add: persistent_maps_def robots_unread split: sum.splits prod.splits)

lemma carried:
  assumes "\<And>a b. f (s\<lparr>robot_serials := a, priv_persistent_maps := b\<rparr>) w =
     (case f s w of (res, s', w') \<Rightarrow> (res, s'\<lparr>robot_serials := a, priv_persistent_maps := b\<rparr>, w'))"
  shows "robot_serials (fst (snd (f s w))) = robot_serials s \<and>
         priv_persistent_maps (fst (snd (f s w))) = priv_persistent_maps s"
proof -
  have "f s w = f (s\<lparr>robot_serials := robot_serials s, priv_persistent_maps := priv_persistent_maps s\<rparr>) w"
    by simp
  also have "\<dots> = (case f s w of (res, s', w') \<Rightarrow>
      (res, s'\<lparr>robot_serials := robot_serials s, priv_persistent_maps := priv_persistent_maps s\<rparr>, w'))"
    by (rule assms)
  finally have "f s w = (case f s w of (res, s', w') \<Rightarrow>
      (res, s'\<lparr>robot_serials := robot_serials s, priv_persistent_maps := priv_persistent_maps s\<rparr>, w'))" .
  then have "fst (snd (f s w)) =
      (fst (snd (f s w)))\<lparr>robot_serials := robot_serials s, priv_persistent_maps := priv_persistent_maps s\<rparr>"
    by (cases "f s w") auto
  then show ?thesis
    by (metis session.select_convs(3) session.select_convs(6) session.surjective session.update_convs(3) session.update_convs(6))
qed

lemma maps_follows_refresh_maps: "snd (maps lib s w) = snd (refresh_maps lib s w)"
  by (simp add: maps_def split: prod.splits sum.splits)


lemma persistent_maps_shape:
  assumes "persistent_maps lib s w = (res, s', w')"
  shows "\<exists>rs. s' = s\<lparr>priv_robots := rs\<rparr>"
proof -
  obtain r0 s0 w0 where r: "robots lib s w = (r0, s0, w0)"
    by (cases "robots lib s w")
  with assms have "s' = s0"
    by (auto simp add: persistent_maps_def split: sum.splits prod.splits)
  with robots_shape [OF r] show ?thesis by blast
qed

text \<open>Adding to the set of robots never removes one, and what is added is then held.\<close>

lemma set_add_keeps: "set xs \<subseteq> set (set_add lib r xs)"
  by (auto simp add: set_add_def)

lemma set_add_holds: "\<exists>x \<in> set (set_add lib r xs). x = r \<or> robot_eq lib x r"
  by (auto simp add: set_add_def)

lemma foldl_set_add_keeps: "set xs \<subseteq> set (foldl (\<lambda>ys r. set_add lib r ys) xs made)"
proof (induction made arbitrary: xs)
  case Nil
  show ?case by simp
next
  case (Cons r made)
  from Cons.IH [of "set_add lib r xs"] set_add_keeps [of xs lib r] show ?case by auto
qed

lemma foldl_set_add_holds:
  "r \<in> set made \<Longrightarrow> \<exists>x \<in> set (foldl (\<lambda>ys r. set_add lib r ys) xs made). x = r \<or> robot_eq lib x r"
proof (induction made arbitrary: xs)
  case Nil
  then show ?case by simp
next
  case (Cons a made)
  show ?case
  proof (cases "r = a")
    case True
    from set_add_holds [of lib a xs] obtain x where
      "x \<in> set (set_add lib a xs)" "x = a \<or> robot_eq lib x a" by blast
    with foldl_set_add_keeps [of "set_add lib a xs" lib made] True show ?thesis by auto
  next
    case False
    with Cons.prems have "r \<in> set made" by simp
    from Cons.IH [OF this, of "set_add lib a xs"] show ?thesis by simp
  qed
qed

lemma add_robots_success:
  "add_robots lib ds s w = (Inr (), s', w') \<Longrightarrow>
     \<exists>made. length made = length ds \<and>
       (\<forall>i<length ds. constructed_from (auth_provider s) (next_oid w + i) (ds ! i) (made ! i)) \<and>
       priv_robots s' = foldl (\<lambda>xs r. set_add lib r xs) (priv_robots s) made"
proof (induction ds arbitrary: s w)
  case Nil
  then show ?case by simp
next
  case (Cons d ds)
  from Cons.prems obtain n sr k t where
    f: "subscript d ''name'' = Inr n" "subscript d ''serial'' = Inr sr"
       "subscript d ''secret_key'' = Inr k" "subscript d ''traits'' = Inr t"
    by (auto split: sum.splits)
  define r where "r = \<lparr>oid = next_oid w, name = n, serial = sr, secret = k, traits = t,
                        robot_auth_provider = auth_provider s\<rparr>"
  define s1 where "s1 = s\<lparr>priv_robots := set_add lib r (priv_robots s)\<rparr>"
  define w1 where "w1 = w\<lparr>next_oid := Suc (next_oid w)\<rparr>"
  from Cons.prems f have "add_robots lib ds s1 w1 = (Inr (), s', w')"
    by (simp add: Robot_init_def r_def s1_def w1_def)
  from Cons.IH [OF this] obtain made where
    m: "length made = length ds"
       "\<forall>i<length ds. constructed_from (auth_provider s1) (next_oid w1 + i) (ds ! i) (made ! i)"
       "priv_robots s' = foldl (\<lambda>xs r. set_add lib r xs) (priv_robots s1) made"
    by blast
  have r: "constructed_from (auth_provider s) (next_oid w) d r"
    by (simp add: constructed_from_def r_def f)
  have "constructed_from (auth_provider s) (next_oid w + i) ((d # ds) ! i) ((r # made) ! i)"
    if "i < length (d # ds)" for i
  proof (cases i)
    case 0
    with r show ?thesis by simp
  next
    case (Suc j)
    with that m(2) show ?thesis by (simp add: s1_def w1_def)
  qed
  moreover have "length (r # made) = length (d # ds)" using m(1) by simp
  moreover have "priv_robots s' = foldl (\<lambda>xs r. set_add lib r xs) (priv_robots s) (r # made)"
    using m(3) by (simp add: s1_def)
  ultimately show ?case by blast
qed

text \<open>The hexadecimal encoding of random bytes, and the statuses that pass.\<close>

lemma length_hexlify: "length (hexlify bs) = 2 * length bs"
  by (induction bs) (simp_all add: hexlify_def)

lemma hex_digit_in: "hex_digit n \<in> set ''0123456789abcdef''"
proof -
  have "n mod 16 < length ''0123456789abcdef''" by simp
  then have "''0123456789abcdef'' ! (n mod 16) \<in> set ''0123456789abcdef''"
    by (rule nth_mem)
  then show ?thesis by (simp only: hex_digit_def)
qed

lemma set_hexlify: "set (hexlify bs) \<subseteq> set ''0123456789abcdef''"
proof (induction bs)
  case Nil
  show ?case by (simp add: hexlify_def)
next
  case (Cons b bs)
  have "hexlify (b # bs) = hex_digit (unat b div 16) # hex_digit (unat b mod 16) # hexlify bs"
    by (simp add: hexlify_def)
  with Cons hex_digit_in [of "unat b div 16"] hex_digit_in [of "unat b mod 16"] show ?case
    by (simp only: set_simps insert_subset)
qed

lemma length_os_urandom: "length (fst (os_urandom n w)) = n"
  by (simp add: os_urandom_def)

lemma ok_status_passes:
  "200 \<le> status_code resp \<Longrightarrow> status_code resp < 300 \<Longrightarrow> raise_for_status resp = Inr ()"
  by (simp add: raise_for_status_def)

text \<open>The file name that \<^verbatim>\<open>get_map_image\<close> derives from the URL has no slash in it.\<close>

lemma py_split_not_empty: "py_split c s \<noteq> []"
  by (induction s) (simp_all split: list.splits)

lemma py_split_no_separator: "x \<in> set (py_split c s) \<Longrightarrow> c \<notin> set x"
proof (induction s arbitrary: x)
  case Nil
  then show ?case by simp
next
  case (Cons a s)
  show ?case
  proof (cases "a = c")
    case True
    with Cons show ?thesis by auto
  next
    case False
    obtain y ys where ys: "py_split c s = y # ys"
      using py_split_not_empty [of c s] by (cases "py_split c s") auto
    with False Cons.prems have "x = a # y \<or> x \<in> set ys" by simp
    with Cons.IH [of y] Cons.IH [of x] ys False show ?thesis by auto
  qed
qed

lemma py_split_first: "py_split c s ! 0 = takeWhile (\<lambda>x. x \<noteq> c) s"
proof (induction s)
  case Nil
  show ?case by simp
next
  case (Cons a s)
  obtain y ys where "py_split c s = y # ys"
    using py_split_not_empty [of c s] by (cases "py_split c s") auto
  with Cons show ?case by simp
qed

lemma py_rsplit_second:
  assumes "index (py_rsplit c n s) 1 = Inr a" and "0 < n"
  shows "c \<notin> set a"
proof -
  let ?parts = "py_split c s"
  have "a \<in> set ?parts"
  proof (cases "length ?parts \<le> Suc n")
    case True
    with assms(1) have "1 < length ?parts" "a = ?parts ! 1"
      by (auto simp add: index_def py_rsplit_def split: if_splits)
    then show ?thesis by (metis nth_mem)
  next
    case False
    with assms(1) have "a = drop (length ?parts - n) ?parts ! 0"
      by (auto simp add: index_def py_rsplit_def Let_def split: if_splits)
    moreover from False assms(2) have "drop (length ?parts - n) ?parts \<noteq> []" by simp
    ultimately have "a \<in> set (drop (length ?parts - n) ?parts)"
      by (metis length_greater_0_conv nth_mem)
    then show ?thesis by (rule in_set_dropD)
  qed
  then show ?thesis by (rule py_split_no_separator)
qed

lemma image_filename_plain:
  assumes "index (py_rsplit CHR ''/'' 2 u) 1 = Inr a"
      and "index (py_rsplit CHR ''/'' 1 u) 1 = Inr b"
      and "index (py_split CHR ''?'' (a @ ''-'' @ b)) 0 = Inr f"
  shows "CHR ''/'' \<notin> set f"
proof -
  have a: "CHR ''/'' \<notin> set a" using assms(1) by (rule py_rsplit_second) simp
  have b: "CHR ''/'' \<notin> set b" using assms(2) by (rule py_rsplit_second) simp
  from assms(3) have f: "f = takeWhile (\<lambda>x. x \<noteq> CHR ''?'') (a @ ''-'' @ b)"
    by (simp add: index_def py_split_first split: if_splits)
  show ?thesis
  proof
    assume "CHR ''/'' \<in> set f"
    then have "CHR ''/'' \<in> set (a @ ''-'' @ b)"
      unfolding f by (rule set_takeWhileD [THEN conjunct1])
    then have "CHR ''/'' \<in> set a \<or> CHR ''/'' \<in> set b" by simp
    with a b show False by blast
  qed
qed

lemma path_join_plain:
  "p \<noteq> [] \<Longrightarrow> CHR ''/'' \<notin> set f \<Longrightarrow>
     path_join p f = (if last p = CHR ''/'' then p @ f else p @ ''/'' @ f)"
proof -
  assume p: "p \<noteq> []" and f: "CHR ''/'' \<notin> set f"
  have "\<not> (f \<noteq> [] \<and> hd f = CHR ''/'')"
    using f by (cases f) auto
  with p show ?thesis by (simp add: path_join_def)
qed

text \<open>
  Storing under string keys in a dict whose keys are strings is the update of the map
  that the dict stands for.
\<close>

lemma dict_set_keys: "fst ` set (dict_set k v d) \<subseteq> insert k (fst ` set d)"
proof (induction d)
  case Nil
  show ?case by simp
next
  case (Cons kv d)
  obtain k' v' where kv: "kv = (k', v')" by (cases kv)
  show ?case
  proof (cases "key_eq k' k")
    case True
    with kv show ?thesis by auto
  next
    case False
    with kv Cons.IH show ?thesis by auto
  qed
qed

lemma dict_set_string_key:
  assumes "\<forall>k \<in> fst ` set d. \<exists>t. k = JStr t"
  shows "map_of (dict_set (JStr t) v d) = (map_of d)(JStr t \<mapsto> v)"
  using assms
proof (induction d)
  case Nil
  show ?case by simp
next
  case (Cons kv d)
  obtain k' v' where kv: "kv = (k', v')" by (cases kv)
  with Cons.prems obtain t' where k': "k' = JStr t'" by auto
  from Cons.prems have "\<forall>k \<in> fst ` set d. \<exists>t. k = JStr t" by simp
  then have ih: "map_of (dict_set (JStr t) v d) = (map_of d)(JStr t \<mapsto> v)" by (rule Cons.IH)
  show ?case
  proof (cases "t' = t")
    case True
    with kv k' show ?thesis by (simp add: fun_eq_iff)
  next
    case False
    with kv k' ih show ?thesis by (simp add: fun_eq_iff)
  qed
qed

lemma stored_entries_string_keys:
  assumes "\<forall>x \<in> set pre. \<exists>t. serial x = JStr t"
      and "\<forall>k \<in> fst ` set d. \<exists>t. k = JStr t"
  shows "map_of (foldl (\<lambda>m x. dict_set (serial x) (body x) m) d pre) =
           foldl (\<lambda>m x. m(serial x \<mapsto> body x)) (map_of d) pre"
  using assms
proof (induction pre arbitrary: d)
  case Nil
  show ?case by simp
next
  case (Cons x pre)
  from Cons.prems(1) obtain t where t: "serial x = JStr t" by auto
  have keys: "\<forall>k \<in> fst ` set (dict_set (serial x) (body x) d). \<exists>t. k = JStr t"
  proof
    fix k assume "k \<in> fst ` set (dict_set (serial x) (body x) d)"
    with dict_set_keys [of "serial x" "body x" d] have "k = serial x \<or> k \<in> fst ` set d"
      by blast
    with Cons.prems(2) t show "\<exists>t. k = JStr t" by blast
  qed
  from Cons.prems(1) have "\<forall>x \<in> set pre. \<exists>t. serial x = JStr t" by simp
  from Cons.IH [OF this keys] dict_set_string_key [OF Cons.prems(2), of t "body x"] t
  show ?case by simp
qed

text \<open>Where the record of the calls of \<^verbatim>\<open>generate_headers\<close> stays as it is.\<close>

lemma collect_persistent_maps_calls:
  assumes "\<forall>r v. generate_headers_log (snd (robot_persistent_maps lib r v)) = generate_headers_log v"
  shows "generate_headers_log (snd (collect_persistent_maps lib rs acc w)) = generate_headers_log w"
proof (induction rs arbitrary: acc w)
  case Nil
  show ?case by simp
next
  case (Cons r rs)
  obtain res w1 where c: "robot_persistent_maps lib r w = (res, w1)"
    by (cases "robot_persistent_maps lib r w")
  with assms have "generate_headers_log w1 = generate_headers_log w"
    by (metis snd_conv)
  with c Cons.IH show ?case
    by (simp split: sum.splits)
qed

lemma persistent_maps_calls:
  assumes "\<forall>r v. generate_headers_log (snd (robot_persistent_maps lib r v)) = generate_headers_log v"
      and "persistent_maps lib s w = (res, s', w')"
  shows "generate_headers_log w' = generate_headers_log w"
proof -
  obtain r0 s0 w0 where r: "robots lib s w = (r0, s0, w0)"
    by (cases "robots lib s w")
  from robots_shape [OF r] have w0: "generate_headers_log w0 = generate_headers_log w"
    by auto
  show ?thesis
  proof (cases r0)
    case (Inl e)
    with assms(2) r w0 show ?thesis by (simp add: persistent_maps_def)
  next
    case (Inr rs)
    with assms(2) r have "w' = snd (collect_persistent_maps lib (set_order lib rs) [] w0)"
      by (auto simp add: persistent_maps_def split: prod.splits sum.splits)
    with collect_persistent_maps_calls [OF assms(1)] w0 show ?thesis by simp
  qed
qed

lemma get_map_image_calls:
  "generate_headers_log (snd (get_map_image u dest_path w)) = generate_headers_log w"
  by (simp add: get_map_image_def save_image_def http_request_def
      split: reply.splits option.splits sum.splits)

section \<open>The claims\<close>

text \<open>
  C6: for every OAuth token, \<^verbatim>\<open>login_oauth\<close> sends no request: the log of requests is as
  it was, and so is the whole world but for the record of the one call of
  \<^verbatim>\<open>generate_headers\<close> that the constructor makes. It returns a session that wraps an
  \<^verbatim>\<open>OAuthProvider\<close> of this token, whose generated headers, kept by the session, are
  \<open>Accept\<close> with \<open>application/vnd.neato.beehive.v1+json\<close> and \<open>Authorization\<close> with exactly
  \<open>Bearer\<close>, a blank and the token.
\<close>

theorem login_oauth_session:
  "request_log (snd (login_oauth lib oauth_token w)) = request_log w \<and>
   snd (login_oauth lib oauth_token w) =
     w\<lparr>generate_headers_log := generate_headers_log w @ [OAuthProvider oauth_token]\<rparr> \<and>
   auth_provider (fst (login_oauth lib oauth_token w)) = OAuthProvider oauth_token \<and>
   fst (generate_headers lib (auth_provider (fst (login_oauth lib oauth_token w))) v) =
     [(''Accept'', ''application/vnd.neato.beehive.v1+json''),
      (''Authorization'', ''Bearer '' @ oauth_token)] \<and>
   priv_headers (fst (login_oauth lib oauth_token w)) =
     fst (generate_headers lib (auth_provider (fst (login_oauth lib oauth_token w))) v) \<and>
   map_of (priv_headers (fst (login_oauth lib oauth_token w))) ''Authorization'' =
     Some (''Bearer '' @ oauth_token) \<and>
   map_of (priv_headers (fst (login_oauth lib oauth_token w))) ''Accept'' =
     Some ''application/vnd.neato.beehive.v1+json''"
  by (simp add: login_oauth_def Session_init_def generate_headers_def)

text \<open>
  C1, as amended: the \<^verbatim>\<open>robots\<close> property is memoized on the contents of \<^verbatim>\<open>_robots\<close>. Take
  two accesses in a row. When \<^verbatim>\<open>_robots\<close> is not empty, an access sends nothing and
  returns \<^verbatim>\<open>_robots\<close>, leaving the session and the world as they were; when it is empty,
  the access sends the one request of \<^verbatim>\<open>refresh_robots\<close>. A returned set is the cached
  one. So for a session whose \<^verbatim>\<open>_robots\<close> is empty, two accesses send exactly one request
  whenever the first access leaves \<^verbatim>\<open>_robots\<close> non-empty, and the second access then
  returns the cached set and changes nothing.
\<close>

theorem robots_memoized:
  assumes "robots lib s w = (r1, s1, w1)" and "robots lib s1 w1 = (r2, s2, w2)"
  shows "(priv_robots s \<noteq> [] \<longrightarrow> r1 = Inr (priv_robots s) \<and> s1 = s \<and> w1 = w) \<and>
         (priv_robots s = [] \<longrightarrow> request_log w1 = request_log w @ [robots_request lib s]) \<and>
         (\<forall>rs. r1 = Inr rs \<longrightarrow> rs = priv_robots s1) \<and>
         (priv_robots s = [] \<and> priv_robots s1 \<noteq> [] \<longrightarrow>
            request_log w2 = request_log w @ [robots_request lib s] \<and>
            r2 = Inr (priv_robots s1) \<and> s2 = s1 \<and> w2 = w1)"
proof -
  have cached: "r = Inr (priv_robots t) \<and> t' = t \<and> v' = v"
    if "robots lib t v = (r, t', v')" and "priv_robots t \<noteq> []" for t v r t' v'
    using that by (auto simp add: robots_def)
  from robots_shape [OF assms(1)] obtain rs n where
    first: "s1 = s\<lparr>priv_robots := rs\<rparr>" "r1 \<in> {Inr rs} \<union> range Inl"
      "w1 = w\<lparr>request_log := request_log w @ (if priv_robots s = [] then [robots_request lib s] else []),
              next_oid := n\<rparr>"
    by blast
  have a: "priv_robots s \<noteq> [] \<longrightarrow> r1 = Inr (priv_robots s) \<and> s1 = s \<and> w1 = w"
    using cached [OF assms(1)] by simp
  have b: "priv_robots s = [] \<longrightarrow> request_log w1 = request_log w @ [robots_request lib s]"
    using first(3) by simp
  have c: "\<forall>rs. r1 = Inr rs \<longrightarrow> rs = priv_robots s1"
    using first(1,2) by auto
  have d: "priv_robots s = [] \<and> priv_robots s1 \<noteq> [] \<longrightarrow>
            request_log w2 = request_log w @ [robots_request lib s] \<and>
            r2 = Inr (priv_robots s1) \<and> s2 = s1 \<and> w2 = w1"
    using cached [OF assms(2)] b by simp
  from a b c d show ?thesis by blast
qed

theorem robots_memoized_witness:
  "priv_robots example_session = [] \<and>
   priv_robots (fst (snd (robots example_library example_session (fresh_world (three_devices 200))))) \<noteq> [] \<and>
   request_log (snd (snd (robots example_library
       (fst (snd (robots example_library example_session (fresh_world (three_devices 200)))))
       (snd (snd (robots example_library example_session (fresh_world (three_devices 200)))))))) =
     [robots_request example_library example_session]"
proof -
  let ?X = "robots example_library example_session (fresh_world (three_devices 200))"
  let ?Y = "robots example_library (fst (snd ?X)) (snd (snd ?X))"
  have 1: "?X = (fst ?X, fst (snd ?X), snd (snd ?X))" by simp
  have 2: "?Y = (fst ?Y, fst (snd ?Y), snd (snd ?Y))" by simp
  have e: "priv_robots example_session = []"
    by (simp add: example_session_def login_oauth_def Session_init_def generate_headers_def)
  have n: "priv_robots (fst (snd ?X)) \<noteq> []"
    by (simp add: model_defs example_defs)
  from robots_memoized [OF 1 2] e n
  have "request_log (snd (snd ?Y)) = request_log (fresh_world (three_devices 200)) @ [robots_request example_library example_session]"
    by blast
  with e n show ?thesis by (simp add: fresh_world_def)
qed

text \<open>
  The claim as it was stated, "for every session two accesses send exactly one request",
  fails for an account without robots: both accesses return the empty set and two
  requests have been sent.
\<close>

theorem robots_twice_no_devices:
  "(case robots example_library example_session (fresh_world no_devices) of
      (r1, s1, w1) \<Rightarrow>
        (case robots example_library s1 w1 of
           (r2, s2, w2) \<Rightarrow> (r1, r2, length (request_log w2)))) = (Inr [], Inr [], 2)"
  by (simp add: model_defs example_defs)

text \<open>
  C9: the memoization is keyed on \<^verbatim>\<open>_robots\<close> being non-empty, not on a flag. If
  \<^verbatim>\<open>_robots\<close> is empty and the fetch is answered with an empty device list, then
  \<^verbatim>\<open>refresh_robots\<close> succeeds and leaves the session as it was (\<^verbatim>\<open>_robots\<close> still empty),
  the access returns the empty set, and every access to \<^verbatim>\<open>robots\<close> on this session, in
  whatever world it happens, sends the request again.
\<close>

theorem robots_refetch_when_empty:
  assumes "priv_robots s = []"
      and "server w (request_log w) (robots_request lib s) = Response resp"
      and "raise_for_status resp = Inr ()"
      and "json_body resp = Some (JArr [])"
  shows "refresh_robots lib s w = (Inr (), s, w\<lparr>request_log := request_log w @ [robots_request lib s]\<rparr>) \<and>
         robots lib s w = (Inr [], s, w\<lparr>request_log := request_log w @ [robots_request lib s]\<rparr>) \<and>
         (\<forall>w'. request_log (snd (snd (robots lib s w'))) = request_log w' @ [robots_request lib s])"
proof -
  have r: "refresh_robots lib s w = (Inr (), s, w\<lparr>request_log := request_log w @ [robots_request lib s]\<rparr>)"
    using assms(2,3,4)
    by (simp add: refresh_robots_def http_request_def response_json_def py_iter_def)
  have a: "robots lib s w = (Inr [], s, w\<lparr>request_log := request_log w @ [robots_request lib s]\<rparr>)"
    using r assms(1) by (simp add: robots_def)
  have "request_log (snd (snd (robots lib s w'))) = request_log w' @ [robots_request lib s]" for w'
  proof -
    obtain res s' w'' where x: "robots lib s w' = (res, s', w'')"
      by (cases "robots lib s w'")
    from robots_shape [OF x] assms(1) show ?thesis
      using x by auto
  qed
  with r a show ?thesis by blast
qed

theorem robots_refetch_when_empty_witness:
  "priv_robots example_session = [] \<and>
   robots example_library example_session (fresh_world no_devices) =
     (Inr [], example_session,
      (fresh_world no_devices)\<lparr>request_log := [robots_request example_library example_session]\<rparr>) \<and>
   request_log (snd (snd (robots example_library example_session
      ((fresh_world no_devices)\<lparr>request_log := [robots_request example_library example_session]\<rparr>)))) =
     [robots_request example_library example_session, robots_request example_library example_session]"
proof -
  let ?q = "robots_request example_library example_session"
  have e: "priv_robots example_session = []"
    by (simp add: example_session_def login_oauth_def Session_init_def generate_headers_def)
  have s: "server (fresh_world no_devices) (request_log (fresh_world no_devices)) ?q =
             Response \<lparr>status_code = 200, json_body = Some (JArr []), raw = \<lparr>unread = [], decode_content = False\<rparr>\<rparr>"
    by (simp add: example_defs)
  have ok: "raise_for_status \<lparr>status_code = 200, json_body = Some (JArr []), raw = \<lparr>unread = [], decode_content = False\<rparr>\<rparr> = Inr ()"
    by (simp add: raise_for_status_def)
  have j: "json_body \<lparr>status_code = 200, json_body = Some (JArr []), raw = \<lparr>unread = [], decode_content = False\<rparr>\<rparr> = Some (JArr [])"
    by simp
  from robots_refetch_when_empty [OF e s ok j] e show ?thesis
    by (simp add: fresh_world_def)
qed

text \<open>
  C2: the \<^verbatim>\<open>maps\<close> property is not memoized. Whatever \<^verbatim>\<open>_maps\<close> holds, an access leaves the
  session and the world exactly as \<^verbatim>\<open>refresh_maps\<close> leaves them; and when it returns, it has
  run \<^verbatim>\<open>refresh_maps\<close> to its end, it returns \<^verbatim>\<open>_maps\<close> as it is afterwards, and the requests
  it has sent are the request for the robots (only when \<^verbatim>\<open>_robots\<close> was empty) followed by
  one GET for each robot of the set, in the order of iteration.
\<close>

theorem maps_not_memoized:
  "snd (maps lib s w) = snd (refresh_maps lib s w) \<and>
   (\<forall>m s' w'. maps lib s w = (Inr m, s', w') \<longrightarrow>
      refresh_maps lib s w = (Inr (), s', w') \<and> m = priv_maps s' \<and>
      request_log w' =
        request_log w @ (if priv_robots s = [] then [robots_request lib s] else [])
          @ map (maps_request lib s) (set_order lib (priv_robots s')))"
proof -
  have a: "snd (maps lib s w) = snd (refresh_maps lib s w)"
    by (simp add: maps_def split: prod.splits sum.splits)
  have b: "refresh_maps lib s w = (Inr (), s', w') \<and> m = priv_maps s' \<and>
      request_log w' =
        request_log w @ (if priv_robots s = [] then [robots_request lib s] else [])
          @ map (maps_request lib s) (set_order lib (priv_robots s'))"
    if m: "maps lib s w = (Inr m, s', w')" for m s' w'
  proof -
    from m have r: "refresh_maps lib s w = (Inr (), s', w')" and v: "m = priv_maps s'"
      by (auto simp add: maps_def split: prod.splits sum.splits)
    from refresh_maps_shape [OF r] v r show ?thesis by auto
  qed
  from a b show ?thesis by blast
qed

theorem maps_not_memoized_witness:
  "fst (maps example_library example_session (fresh_world (three_devices 200))) =
     Inr [(JStr ''S1'', JArr [JStr ''m'']), (JStr ''S2'', JArr []), (JStr ''S3'', JArr [JStr ''m''])] \<and>
   map req_url (request_log (snd (snd (maps example_library example_session (fresh_world (three_devices 200)))))) =
     [''https://beehive.neatocloud.com/users/me/robots'',
      ''https://beehive.neatocloud.com/users/me/robots/S1/maps'',
      ''https://beehive.neatocloud.com/users/me/robots/S2/maps'',
      ''https://beehive.neatocloud.com/users/me/robots/S3/maps''] \<and>
   map req_url (request_log (snd (snd (maps example_library
       (fst (snd (maps example_library example_session (fresh_world (three_devices 200)))))
       (snd (snd (maps example_library example_session (fresh_world (three_devices 200))))))))) =
     [''https://beehive.neatocloud.com/users/me/robots'',
      ''https://beehive.neatocloud.com/users/me/robots/S1/maps'',
      ''https://beehive.neatocloud.com/users/me/robots/S2/maps'',
      ''https://beehive.neatocloud.com/users/me/robots/S3/maps'',
      ''https://beehive.neatocloud.com/users/me/robots/S1/maps'',
      ''https://beehive.neatocloud.com/users/me/robots/S2/maps'',
      ''https://beehive.neatocloud.com/users/me/robots/S3/maps'']"
  using maps_not_memoized [of example_library example_session "fresh_world (three_devices 200)"]
  by (simp add: model_defs example_defs)

text \<open>
  C3, as amended: \<^verbatim>\<open>refresh_maps\<close> is not atomic. Let the robots be iterated as \<open>pre\<close>, then
  \<open>r\<close>, then \<open>post\<close>; let the request for each robot of \<open>pre\<close> be answered without an HTTP
  error by the JSON \<open>body\<close> of that robot, and let the request for \<open>r\<close> be answered with a
  status from 400 to 599, on which \<^verbatim>\<open>raise_for_status\<close> raises. Then \<^verbatim>\<open>refresh_maps\<close> raises
  the HTTP error of this status; \<^verbatim>\<open>_maps\<close> is what it was before the call with the entries
  of the robots of \<open>pre\<close> stored into it, nothing rolled back; and the requests sent are
  those for \<open>pre\<close> and \<open>r\<close>, none for a robot of \<open>post\<close>. Where all keys are strings, storing
  these entries is updating the mapping from serial to body with them, in this order.
\<close>

theorem refresh_maps_partial_failure:
  assumes "robots lib s w = (Inr rs, s0, w0)"
      and "set_order lib rs = pre @ r # post"
      and "\<forall>i<length pre. hashable (serial (pre ! i)) \<and>
             (\<exists>resp. server w0 (request_log w0 @ map (maps_request lib s) (take i pre))
                        (maps_request lib s (pre ! i)) = Response resp \<and>
                     raise_for_status resp = Inr () \<and> json_body resp = Some (body (pre ! i)))"
      and "server w0 (request_log w0 @ map (maps_request lib s) pre) (maps_request lib s r) = Response bad"
      and "400 \<le> status_code bad" and "status_code bad < 600"
  shows "refresh_maps lib s w =
           (Inl (HTTPError (status_code bad)),
            s0\<lparr>priv_maps := foldl (\<lambda>m x. dict_set (serial x) (body x) m) (priv_maps s) pre\<rparr>,
            w0\<lparr>request_log := request_log w0 @ map (maps_request lib s) (pre @ [r])\<rparr>) \<and>
         ((\<forall>x \<in> set pre. \<exists>t. serial x = JStr t) \<and> (\<forall>k \<in> fst ` set (priv_maps s). \<exists>t. k = JStr t) \<longrightarrow>
            map_of (foldl (\<lambda>m x. dict_set (serial x) (body x) m) (priv_maps s) pre) =
              foldl (\<lambda>m x. m(serial x \<mapsto> body x)) (map_of (priv_maps s)) pre)"
proof -
  from robots_shape [OF assms(1)] obtain xs where "s0 = s\<lparr>priv_robots := xs\<rparr>" by blast
  then have same: "maps_request lib s0 = maps_request lib s" "priv_maps s0 = priv_maps s"
    by simp_all
  have raised: "raise_for_status bad = Inl (HTTPError (status_code bad))"
    using assms(5,6) by (simp add: raise_for_status_def)
  have "fetch_maps lib (pre @ r # post) s0 w0 =
           (Inl (HTTPError (status_code bad)),
            s0\<lparr>priv_maps := foldl (\<lambda>m x. dict_set (serial x) (body x) m) (priv_maps s0) pre\<rparr>,
            w0\<lparr>request_log := request_log w0 @ map (maps_request lib s0) (pre @ [r])\<rparr>)"
    using assms(3,4) raised unfolding same [symmetric] by (rule fetch_maps_stops)
  with assms(1,2) same have run: "refresh_maps lib s w =
           (Inl (HTTPError (status_code bad)),
            s0\<lparr>priv_maps := foldl (\<lambda>m x. dict_set (serial x) (body x) m) (priv_maps s) pre\<rparr>,
            w0\<lparr>request_log := request_log w0 @ map (maps_request lib s) (pre @ [r])\<rparr>)"
    by (simp add: refresh_maps_def)
  have "map_of (foldl (\<lambda>m x. dict_set (serial x) (body x) m) (priv_maps s) pre) =
              foldl (\<lambda>m x. m(serial x \<mapsto> body x)) (map_of (priv_maps s)) pre"
    if "\<forall>x \<in> set pre. \<exists>t. serial x = JStr t" "\<forall>k \<in> fst ` set (priv_maps s). \<exists>t. k = JStr t"
    using that by (rule stored_entries_string_keys)
  with run show ?thesis by blast
qed

theorem refresh_maps_partial_failure_witness:
  "fst (refresh_maps example_library
          (example_session\<lparr>priv_maps := [(JStr ''S3'', JNull), (JStr ''S1'', JNull)]\<rparr>)
          (fresh_world (three_devices 500))) = Inl (HTTPError 500) \<and>
   priv_maps (fst (snd (refresh_maps example_library
          (example_session\<lparr>priv_maps := [(JStr ''S3'', JNull), (JStr ''S1'', JNull)]\<rparr>)
          (fresh_world (three_devices 500))))) =
     [(JStr ''S3'', JNull), (JStr ''S1'', JArr [JStr ''m''])] \<and>
   map req_url (request_log (snd (snd (refresh_maps example_library
          (example_session\<lparr>priv_maps := [(JStr ''S3'', JNull), (JStr ''S1'', JNull)]\<rparr>)
          (fresh_world (three_devices 500)))))) =
     [''https://beehive.neatocloud.com/users/me/robots'',
      ''https://beehive.neatocloud.com/users/me/robots/S1/maps'',
      ''https://beehive.neatocloud.com/users/me/robots/S2/maps'']"
proof -
  let ?start = "example_session\<lparr>priv_maps := [(JStr ''S3'', JNull), (JStr ''S1'', JNull)]\<rparr>"
  let ?rs = "[example_robot 0 ''R1'' ''S1'', example_robot 1 ''R2'' ''S2'', example_robot 2 ''R3'' ''S3'']"
  let ?fetched = "?start\<lparr>priv_robots := ?rs\<rparr>"
  let ?sent = "(fresh_world (three_devices 500))\<lparr>request_log := [robots_request example_library ?start], next_oid := 3\<rparr>"
  let ?bad = "\<lparr>status_code = 500, json_body = Some (JArr []), raw = \<lparr>unread = [], decode_content = False\<rparr>\<rparr>"
  have 1: "robots example_library ?start (fresh_world (three_devices 500)) = (Inr ?rs, ?fetched, ?sent)"
    by (simp add: model_defs example_defs)
  have 2: "set_order example_library ?rs = [example_robot 0 ''R1'' ''S1''] @ example_robot 1 ''R2'' ''S2'' # [example_robot 2 ''R3'' ''S3'']"
    by (simp add: example_defs)
  have 3: "\<forall>i<length [example_robot 0 ''R1'' ''S1'']. hashable (serial ([example_robot 0 ''R1'' ''S1''] ! i)) \<and>
             (\<exists>resp. server ?sent (request_log ?sent @ map (maps_request example_library ?start) (take i [example_robot 0 ''R1'' ''S1'']))
                        (maps_request example_library ?start ([example_robot 0 ''R1'' ''S1''] ! i)) = Response resp \<and>
                     raise_for_status resp = Inr () \<and> json_body resp = Some ((\<lambda>x. JArr [JStr ''m'']) ([example_robot 0 ''R1'' ''S1''] ! i)))"
    by (simp add: model_defs example_defs)
  have 4: "server ?sent (request_log ?sent @ map (maps_request example_library ?start) [example_robot 0 ''R1'' ''S1''])
             (maps_request example_library ?start (example_robot 1 ''R2'' ''S2'')) = Response ?bad"
    by (simp add: model_defs example_defs)
  have 5: "400 \<le> status_code ?bad" and 6: "status_code ?bad < 600"
    by simp_all
  from refresh_maps_partial_failure [OF 1 2 3 4 5 6] show ?thesis
    by (simp add: model_defs example_defs)
qed

text \<open>
  The claim as it was stated, "if the request fails (non-2xx), \<^verbatim>\<open>refresh_maps\<close> raises
  immediately", fails for a status that is neither 2xx nor an error for
  \<^verbatim>\<open>raise_for_status\<close>: with the maps of S2 answered by the status 300 and a JSON body,
  \<^verbatim>\<open>refresh_maps\<close> returns normally, has stored the entry of S2 and has gone on to S3.
\<close>

theorem refresh_maps_status_300:
  "fst (refresh_maps example_library example_session (fresh_world (three_devices 300))) = Inr () \<and>
   priv_maps (fst (snd (refresh_maps example_library example_session (fresh_world (three_devices 300))))) =
     [(JStr ''S1'', JArr [JStr ''m'']), (JStr ''S2'', JArr []), (JStr ''S3'', JArr [JStr ''m''])] \<and>
   map req_url (request_log (snd (snd (refresh_maps example_library example_session (fresh_world (three_devices 300)))))) =
     [''https://beehive.neatocloud.com/users/me/robots'',
      ''https://beehive.neatocloud.com/users/me/robots/S1/maps'',
      ''https://beehive.neatocloud.com/users/me/robots/S2/maps'',
      ''https://beehive.neatocloud.com/users/me/robots/S3/maps'']"
  by (simp add: model_defs example_defs)

text \<open>
  C8: \<^verbatim>\<open>_headers\<close> is a snapshot. The constructor calls \<^verbatim>\<open>generate_headers()\<close> of the
  provider once and stores what the call returns. After that the methods of a session
  never call it: \<^verbatim>\<open>refresh_robots\<close>, \<^verbatim>\<open>robots\<close>, \<^verbatim>\<open>refresh_maps\<close>, \<^verbatim>\<open>maps\<close> and
  \<^verbatim>\<open>get_map_image\<close> leave the record of the calls as it was, and so does \<^verbatim>\<open>persistent_maps\<close>
  unless a robot's own \<^verbatim>\<open>persistent_maps\<close> makes such a call. Every operation of a session
  leaves \<^verbatim>\<open>_headers\<close> as it was, and every request that \<^verbatim>\<open>refresh_robots\<close>, \<^verbatim>\<open>robots\<close>,
  \<^verbatim>\<open>refresh_maps\<close> or \<^verbatim>\<open>maps\<close> sends carries the stored \<^verbatim>\<open>_headers\<close>, for every state of the
  session, also one whose provider would generate other headers by now.
\<close>

theorem headers_snapshot:
  "priv_headers (fst (Session_init lib p w)) = fst (generate_headers lib p w) \<and>
   generate_headers_log (snd (Session_init lib p w)) = generate_headers_log w @ [p] \<and>
   (case refresh_robots lib s w of
      (res, s', w') \<Rightarrow>
        priv_headers s' = priv_headers s \<and> generate_headers_log w' = generate_headers_log w \<and>
        (\<forall>q \<in> set (drop (length (request_log w)) (request_log w')). req_headers q = Some (priv_headers s))) \<and>
   (case robots lib s w of
      (res, s', w') \<Rightarrow>
        priv_headers s' = priv_headers s \<and> generate_headers_log w' = generate_headers_log w \<and>
        (\<forall>q \<in> set (drop (length (request_log w)) (request_log w')). req_headers q = Some (priv_headers s))) \<and>
   (case refresh_maps lib s w of
      (res, s', w') \<Rightarrow>
        priv_headers s' = priv_headers s \<and> generate_headers_log w' = generate_headers_log w \<and>
        (\<forall>q \<in> set (drop (length (request_log w)) (request_log w')). req_headers q = Some (priv_headers s))) \<and>
   (case maps lib s w of
      (res, s', w') \<Rightarrow>
        priv_headers s' = priv_headers s \<and> generate_headers_log w' = generate_headers_log w \<and>
        (\<forall>q \<in> set (drop (length (request_log w)) (request_log w')). req_headers q = Some (priv_headers s))) \<and>
   (case persistent_maps lib s w of
      (res, s', w') \<Rightarrow>
        priv_headers s' = priv_headers s \<and>
        ((\<forall>r v. generate_headers_log (snd (robot_persistent_maps lib r v)) = generate_headers_log v) \<longrightarrow>
           generate_headers_log w' = generate_headers_log w)) \<and>
   generate_headers_log (snd (get_map_image u dest_path w)) = generate_headers_log w"
proof -
  have init: "priv_headers (fst (Session_init lib p w)) = fst (generate_headers lib p w) \<and>
      generate_headers_log (snd (Session_init lib p w)) = generate_headers_log w @ [p]"
    by (simp add: Session_init_def generate_headers_def)
  have hq: "req_headers (robots_request lib s) = Some (priv_headers s)"
    by (simp add: robots_request_def)
  have hm: "req_headers (maps_request lib s r) = Some (priv_headers s)" for r
    by (simp add: maps_request_def)
  have a: "case refresh_robots lib s w of
      (res, s', w') \<Rightarrow>
        priv_headers s' = priv_headers s \<and> generate_headers_log w' = generate_headers_log w \<and>
        (\<forall>q \<in> set (drop (length (request_log w)) (request_log w')). req_headers q = Some (priv_headers s))"
  proof (cases "refresh_robots lib s w")
    case (fields res s' w')
    from refresh_robots_shape [OF fields] hq show ?thesis
      unfolding fields by auto
  qed
  have b: "case robots lib s w of
      (res, s', w') \<Rightarrow>
        priv_headers s' = priv_headers s \<and> generate_headers_log w' = generate_headers_log w \<and>
        (\<forall>q \<in> set (drop (length (request_log w)) (request_log w')). req_headers q = Some (priv_headers s))"
  proof (cases "robots lib s w")
    case (fields res s' w')
    from robots_shape [OF fields] hq show ?thesis
      unfolding fields by auto
  qed
  have c: "priv_headers s' = priv_headers s \<and> generate_headers_log w' = generate_headers_log w \<and>
        (\<forall>q \<in> set (drop (length (request_log w)) (request_log w')). req_headers q = Some (priv_headers s))"
    if r: "refresh_maps lib s w = (res, s', w')" for res s' w'
  proof -
    from refresh_maps_shape [OF r] obtain rs m n k where
      s': "s' = s\<lparr>priv_robots := rs, priv_maps := m\<rparr>" and
      w': "w' = w\<lparr>request_log := request_log w @ (if priv_robots s = [] then [robots_request lib s] else [])
                                   @ map (maps_request lib s) (take k (set_order lib rs)),
                  next_oid := n\<rparr>"
      by blast
    have "req_headers q = Some (priv_headers s)"
      if "q \<in> set ((if priv_robots s = [] then [robots_request lib s] else [])
                      @ map (maps_request lib s) (take k (set_order lib rs)))" for q
      using that hq hm by (auto split: if_splits)
    with s' w' show ?thesis by simp
  qed
  have d: "case refresh_maps lib s w of
      (res, s', w') \<Rightarrow>
        priv_headers s' = priv_headers s \<and> generate_headers_log w' = generate_headers_log w \<and>
        (\<forall>q \<in> set (drop (length (request_log w)) (request_log w')). req_headers q = Some (priv_headers s))"
    using c by (cases "refresh_maps lib s w") simp
  have e: "case maps lib s w of
      (res, s', w') \<Rightarrow>
        priv_headers s' = priv_headers s \<and> generate_headers_log w' = generate_headers_log w \<and>
        (\<forall>q \<in> set (drop (length (request_log w)) (request_log w')). req_headers q = Some (priv_headers s))"
  proof (cases "maps lib s w")
    case (fields res s' w')
    then have "snd (refresh_maps lib s w) = (s', w')"
      using maps_follows_refresh_maps [of lib s w] by simp
    then obtain r0 where "refresh_maps lib s w = (r0, s', w')"
      by (cases "refresh_maps lib s w") simp
    from c [OF this] show ?thesis unfolding fields by simp
  qed
  have f: "case persistent_maps lib s w of
      (res, s', w') \<Rightarrow>
        priv_headers s' = priv_headers s \<and>
        ((\<forall>r v. generate_headers_log (snd (robot_persistent_maps lib r v)) = generate_headers_log v) \<longrightarrow>
           generate_headers_log w' = generate_headers_log w)"
  proof (cases "persistent_maps lib s w")
    case (fields res s' w')
    from persistent_maps_shape [OF fields] have "priv_headers s' = priv_headers s" by auto
    moreover have "generate_headers_log w' = generate_headers_log w"
      if "\<forall>r v. generate_headers_log (snd (robot_persistent_maps lib r v)) = generate_headers_log v"
      using that fields by (rule persistent_maps_calls)
    ultimately show ?thesis unfolding fields by simp
  qed
  have g: "generate_headers_log (snd (get_map_image u dest_path w)) = generate_headers_log w"
    by (rule get_map_image_calls)
  from init a b d e f g show ?thesis by blast
qed

theorem headers_snapshot_witness:
  "generate_headers_log (snd (login_oauth example_library ''tok'' (fresh_world (three_devices 200)))) =
     [OAuthProvider ''tok''] \<and>
   fst (generate_headers example_library
          (auth_provider (example_session\<lparr>auth_provider := OAuthProvider ''new''\<rparr>))
          (snd (login_oauth example_library ''tok'' (fresh_world (three_devices 200))))) \<noteq>
     priv_headers (example_session\<lparr>auth_provider := OAuthProvider ''new''\<rparr>) \<and>
   map req_headers (request_log (snd (snd (maps example_library
       (example_session\<lparr>auth_provider := OAuthProvider ''new''\<rparr>)
       (snd (login_oauth example_library ''tok'' (fresh_world (three_devices 200)))))))) =
     replicate 4 (Some [(''Accept'', ''application/vnd.neato.beehive.v1+json''), (''Authorization'', ''Bearer tok'')]) \<and>
   generate_headers_log (snd (snd (maps example_library
       (example_session\<lparr>auth_provider := OAuthProvider ''new''\<rparr>)
       (snd (login_oauth example_library ''tok'' (fresh_world (three_devices 200))))))) =
     [OAuthProvider ''tok'']"
  using headers_snapshot [where lib = example_library and p = "OAuthProvider ''tok''"
    and s = "example_session\<lparr>auth_provider := OAuthProvider ''new''\<rparr>"
    and w = "snd (login_oauth example_library ''tok'' (fresh_world (three_devices 200)))"]
  by (simp add: model_defs example_defs numeral_eq_Suc)

text \<open>
  C10: \<^verbatim>\<open>robot_serials\<close> and \<^verbatim>\<open>_persistent_maps\<close> are empty after construction and no
  operation reads or writes them: whatever the two fields hold, every operation returns
  the same result, leaves the same world, and leaves the same session with the two
  fields as they were. (\<^verbatim>\<open>get_map_image\<close> has no session.)
\<close>

theorem unused_fields_untouched:
  "robot_serials (fst (Session_init lib p v)) = [] \<and>
   priv_persistent_maps (fst (Session_init lib p v)) = [] \<and>
   refresh_robots lib (s\<lparr>robot_serials := a, priv_persistent_maps := b\<rparr>) w =
     (case refresh_robots lib s w of
        (res, s', w') \<Rightarrow> (res, s'\<lparr>robot_serials := a, priv_persistent_maps := b\<rparr>, w')) \<and>
   robots lib (s\<lparr>robot_serials := a, priv_persistent_maps := b\<rparr>) w =
     (case robots lib s w of
        (res, s', w') \<Rightarrow> (res, s'\<lparr>robot_serials := a, priv_persistent_maps := b\<rparr>, w')) \<and>
   refresh_maps lib (s\<lparr>robot_serials := a, priv_persistent_maps := b\<rparr>) w =
     (case refresh_maps lib s w of
        (res, s', w') \<Rightarrow> (res, s'\<lparr>robot_serials := a, priv_persistent_maps := b\<rparr>, w')) \<and>
   maps lib (s\<lparr>robot_serials := a, priv_persistent_maps := b\<rparr>) w =
     (case maps lib s w of
        (res, s', w') \<Rightarrow> (res, s'\<lparr>robot_serials := a, priv_persistent_maps := b\<rparr>, w')) \<and>
   persistent_maps lib (s\<lparr>robot_serials := a, priv_persistent_maps := b\<rparr>) w =
     (case persistent_maps lib s w of
        (res, s', w') \<Rightarrow> (res, s'\<lparr>robot_serials := a, priv_persistent_maps := b\<rparr>, w')) \<and>
   robot_serials (fst (snd (refresh_robots lib s w))) = robot_serials s \<and>
   priv_persistent_maps (fst (snd (refresh_robots lib s w))) = priv_persistent_maps s \<and>
   robot_serials (fst (snd (robots lib s w))) = robot_serials s \<and>
   priv_persistent_maps (fst (snd (robots lib s w))) = priv_persistent_maps s \<and>
   robot_serials (fst (snd (refresh_maps lib s w))) = robot_serials s \<and>
   priv_persistent_maps (fst (snd (refresh_maps lib s w))) = priv_persistent_maps s \<and>
   robot_serials (fst (snd (maps lib s w))) = robot_serials s \<and>
   priv_persistent_maps (fst (snd (maps lib s w))) = priv_persistent_maps s \<and>
   robot_serials (fst (snd (persistent_maps lib s w))) = robot_serials s \<and>
   priv_persistent_maps (fst (snd (persistent_maps lib s w))) = priv_persistent_maps s"
proof -
  have init: "robot_serials (fst (Session_init lib p v)) = [] \<and>
      priv_persistent_maps (fst (Session_init lib p v)) = []"
    by (simp add: Session_init_def split_beta)
  note unread = refresh_robots_unread [where lib = lib and s = s and a = a and b = b and w = w]
    robots_unread [where lib = lib and s = s and a = a and b = b and w = w]
    refresh_maps_unread [where lib = lib and s = s and a = a and b = b and w = w]
    maps_unread [where lib = lib and s = s and a = a and b = b and w = w]
    persistent_maps_unread [where lib = lib and s = s and a = a and b = b and w = w]
  note kept = carried [where f = "refresh_robots lib" and s = s and w = w, OF refresh_robots_unread]
    carried [where f = "robots lib" and s = s and w = w, OF robots_unread]
    carried [where f = "refresh_maps lib" and s = s and w = w, OF refresh_maps_unread]
    carried [where f = "maps lib" and s = s and w = w, OF maps_unread]
    carried [where f = "persistent_maps lib" and s = s and w = w, OF persistent_maps_unread]
  from init unread kept show ?thesis by blast
qed

theorem unused_fields_untouched_witness:
  "robot_serials (fst (snd (maps example_library
       (example_session\<lparr>robot_serials := [(JStr ''x'', JNull)], priv_persistent_maps := [(JStr ''y'', JNull)]\<rparr>)
       (fresh_world (three_devices 200))))) = [(JStr ''x'', JNull)] \<and>
   priv_persistent_maps (fst (snd (maps example_library
       (example_session\<lparr>robot_serials := [(JStr ''x'', JNull)], priv_persistent_maps := [(JStr ''y'', JNull)]\<rparr>)
       (fresh_world (three_devices 200))))) = [(JStr ''y'', JNull)] \<and>
   fst (maps example_library
       (example_session\<lparr>robot_serials := [(JStr ''x'', JNull)], priv_persistent_maps := [(JStr ''y'', JNull)]\<rparr>)
       (fresh_world (three_devices 200))) =
   fst (maps example_library example_session (fresh_world (three_devices 200)))"
  using unused_fields_untouched [where lib = example_library and p = "OAuthProvider ''tok''"
    and s = example_session and a = "[(JStr ''x'', JNull)]" and b = "[(JStr ''y'', JNull)]"
    and w = "fresh_world (three_devices 200)"]
  by (simp add: split_beta)

text \<open>
  C7: \<^verbatim>\<open>refresh_robots\<close> never removes a robot from \<^verbatim>\<open>_robots\<close>. However the call ends, the
  robots held before are still held after it, in their places: nothing is cleared. When
  the call returns normally, the response was a JSON value whose elements \<open>ds\<close> were
  iterated, and for each of them, in this order, one new robot was constructed with
  \<open>name\<close>, \<open>serial\<close> and \<open>traits\<close> from the fields of these names, \<open>secret\<close> from the field
  \<open>secret_key\<close>, and the provider of the session, and was added to \<^verbatim>\<open>_robots\<close> with
  \<^verbatim>\<open>set.add\<close>; afterwards the set holds each of these robots, or one equal to it.
\<close>

theorem refresh_robots_accumulates:
  assumes "refresh_robots lib s w = (res, s', w')"
  shows "set (priv_robots s) \<subseteq> set (priv_robots s') \<and>
         (\<exists>new. priv_robots s' = priv_robots s @ new) \<and>
         (res = Inr () \<longrightarrow>
            (\<exists>resp j ds made.
               server w (request_log w) (robots_request lib s) = Response resp \<and>
               json_body resp = Some j \<and> py_iter j = Inr ds \<and>
               length made = length ds \<and>
               (\<forall>i<length ds. constructed_from (auth_provider s) (next_oid w + i) (ds ! i) (made ! i)) \<and>
               priv_robots s' = foldl (\<lambda>xs r. set_add lib r xs) (priv_robots s) made \<and>
               (\<forall>r \<in> set made. \<exists>x \<in> set (priv_robots s'). x = r \<or> robot_eq lib x r)))"
proof -
  let ?w1 = "w\<lparr>request_log := request_log w @ [robots_request lib s]\<rparr>"
  have grows: "\<exists>new. priv_robots s' = priv_robots s @ new"
  proof (cases "\<exists>ds. add_robots lib ds s ?w1 = (res, s', w')")
    case True
    then show ?thesis using add_robots_grows by blast
  next
    case False
    with assms have "s' = s"
      by (auto simp add: refresh_robots_def http_request_def split: sum.splits reply.splits)
    then show ?thesis by simp
  qed
  then have keeps: "set (priv_robots s) \<subseteq> set (priv_robots s')" by auto
  have made: "\<exists>resp j ds made.
               server w (request_log w) (robots_request lib s) = Response resp \<and>
               json_body resp = Some j \<and> py_iter j = Inr ds \<and>
               length made = length ds \<and>
               (\<forall>i<length ds. constructed_from (auth_provider s) (next_oid w + i) (ds ! i) (made ! i)) \<and>
               priv_robots s' = foldl (\<lambda>xs r. set_add lib r xs) (priv_robots s) made \<and>
               (\<forall>r \<in> set made. \<exists>x \<in> set (priv_robots s'). x = r \<or> robot_eq lib x r)"
    if ok: "res = Inr ()"
  proof -
    from assms ok obtain resp j ds where
      got: "server w (request_log w) (robots_request lib s) = Response resp"
        "json_body resp = Some j" "py_iter j = Inr ds"
        "add_robots lib ds s ?w1 = (Inr (), s', w')"
      by (auto simp add: refresh_robots_def http_request_def response_json_def
          split: sum.splits reply.splits option.splits)
    from add_robots_success [OF got(4)] obtain made where
      m: "length made = length ds"
         "\<forall>i<length ds. constructed_from (auth_provider s) (next_oid ?w1 + i) (ds ! i) (made ! i)"
         "priv_robots s' = foldl (\<lambda>xs r. set_add lib r xs) (priv_robots s) made"
      by blast
    have "\<forall>r \<in> set made. \<exists>x \<in> set (priv_robots s'). x = r \<or> robot_eq lib x r"
      unfolding m(3) using foldl_set_add_holds by blast
    with got m show ?thesis by auto
  qed
  from grows keeps made show ?thesis by blast
qed

theorem refresh_robots_accumulates_witness:
  "refresh_robots example_library
      (example_session\<lparr>priv_robots := [example_robot 0 ''R1'' ''S1'', example_robot 1 ''R2'' ''S2'', example_robot 2 ''R3'' ''S3'']\<rparr>)
      ((fresh_world (three_devices 200))\<lparr>request_log := [robots_request example_library example_session], next_oid := 3\<rparr>) =
     (Inr (),
      example_session\<lparr>priv_robots :=
        [example_robot 0 ''R1'' ''S1'', example_robot 1 ''R2'' ''S2'', example_robot 2 ''R3'' ''S3'',
         example_robot 3 ''R1'' ''S1'', example_robot 4 ''R2'' ''S2'', example_robot 5 ''R3'' ''S3'']\<rparr>,
      (fresh_world (three_devices 200))\<lparr>request_log := [robots_request example_library example_session,
                                                          robots_request example_library example_session],
                                          next_oid := 6\<rparr>) \<and>
   set [example_robot 0 ''R1'' ''S1'', example_robot 1 ''R2'' ''S2'', example_robot 2 ''R3'' ''S3'']
     \<subseteq> set [example_robot 0 ''R1'' ''S1'', example_robot 1 ''R2'' ''S2'', example_robot 2 ''R3'' ''S3'',
         example_robot 3 ''R1'' ''S1'', example_robot 4 ''R2'' ''S2'', example_robot 5 ''R3'' ''S3'']"
proof -
  let ?s = "example_session\<lparr>priv_robots := [example_robot 0 ''R1'' ''S1'', example_robot 1 ''R2'' ''S2'', example_robot 2 ''R3'' ''S3'']\<rparr>"
  let ?w = "(fresh_world (three_devices 200))\<lparr>request_log := [robots_request example_library example_session], next_oid := 3\<rparr>"
  let ?s' = "example_session\<lparr>priv_robots :=
        [example_robot 0 ''R1'' ''S1'', example_robot 1 ''R2'' ''S2'', example_robot 2 ''R3'' ''S3'',
         example_robot 3 ''R1'' ''S1'', example_robot 4 ''R2'' ''S2'', example_robot 5 ''R3'' ''S3'']\<rparr>"
  let ?w' = "(fresh_world (three_devices 200))\<lparr>request_log := [robots_request example_library example_session,
                                                          robots_request example_library example_session],
                                          next_oid := 6\<rparr>"
  have run: "refresh_robots example_library ?s ?w = (Inr (), ?s', ?w')"
    by (simp add: model_defs example_defs)
  from refresh_robots_accumulates [OF run]
  have "set (priv_robots ?s) \<subseteq> set (priv_robots ?s')" by blast
  with run show ?thesis by simp
qed

text \<open>
  C5: for every email and password, \<^verbatim>\<open>login_basic\<close> reads 64 bytes from \<^verbatim>\<open>os.urandom\<close> and
  sends one POST whose JSON body holds the email, the password, the platform \<open>ios\<close> and,
  as \<open>token\<close>, the hexadecimal encoding of these bytes: 128 characters, each a
  hexadecimal digit. If the response has a status from 200 to 299 and its JSON body has
  an \<open>access_token\<close>, the call returns a session over a \<^verbatim>\<open>BasicAuthProvider\<close> of this token,
  whose \<open>Authorization\<close> header is \<open>Token token=\<close> followed by the token (the token itself
  when it is a string), and does not begin with \<open>Bearer\<close>.
\<close>

theorem login_basic_nonce_and_token:
  "\<exists>nonce. nonce = hexlify (fst (os_urandom 64 w)) \<and>
     length (fst (os_urandom 64 w)) = 64 \<and>
     length nonce = 128 \<and> set nonce \<subseteq> set ''0123456789abcdef'' \<and>
     urandom_pos (snd (login_basic lib email password w)) = urandom_pos w + 64 \<and>
     request_log (snd (login_basic lib email password w)) =
       request_log w @ [login_request lib email password nonce] \<and>
     req_verb (login_request lib email password nonce) = POST \<and>
     req_json (login_request lib email password nonce) =
       Some (JObj [(''email'', JStr email), (''password'', JStr password),
                   (''platform'', JStr ''ios''), (''token'', JStr nonce)]) \<and>
     (\<forall>resp j access_token.
        server w (request_log w) (login_request lib email password nonce) = Response resp \<and>
        200 \<le> status_code resp \<and> status_code resp < 300 \<and>
        json_body resp = Some j \<and> subscript j ''access_token'' = Inr access_token \<longrightarrow>
        (\<exists>s w'. login_basic lib email password w = (Inr s, w') \<and>
           auth_provider s = BasicAuthProvider access_token \<and>
           priv_headers s = fst (generate_headers lib (auth_provider s) v) \<and>
           map_of (priv_headers s) ''Authorization'' = Some (''Token token='' @ py_format lib access_token) \<and>
           (\<forall>t. access_token = JStr t \<longrightarrow>
              map_of (priv_headers s) ''Authorization'' = Some (''Token token='' @ t)) \<and>
           (\<forall>v. map_of (priv_headers s) ''Authorization'' = Some v \<longrightarrow> take 6 v \<noteq> ''Bearer'')))"
proof -
  define nonce where "nonce = hexlify (fst (os_urandom 64 w))"
  define w0 where "w0 = snd (os_urandom 64 w)"
  have u: "os_urandom 64 w = (fst (os_urandom 64 w), w0)" by (simp add: w0_def)
  have w0: "request_log w0 = request_log w" "server w0 = server w" "urandom_pos w0 = urandom_pos w + 64"
    by (simp_all add: w0_def os_urandom_def)
  have len: "length (fst (os_urandom 64 w)) = 64" by (rule length_os_urandom)
  have n: "length nonce = 128" by (simp add: nonce_def length_hexlify len)
  have h: "set nonce \<subseteq> set ''0123456789abcdef''" unfolding nonce_def by (rule set_hexlify)
  have run: "login_basic lib email password w =
     (case http_request (login_request lib email password nonce) w0 of
        (Inl e, w1) \<Rightarrow> (Inl e, w1)
      | (Inr resp, w1) \<Rightarrow>
     (case raise_for_status resp of
        Inl e \<Rightarrow> (Inl e, w1)
      | Inr _ \<Rightarrow>
     (case response_json resp of
        Inl e \<Rightarrow> (Inl e, w1)
      | Inr j \<Rightarrow>
     (case subscript j ''access_token'' of
        Inl e \<Rightarrow> (Inl e, w1)
      | Inr access_token \<Rightarrow>
          (case Session_init lib (BasicAuthProvider access_token) w1 of
             (s, w2) \<Rightarrow> (Inr s, w2))))))"
    unfolding login_basic_def nonce_def by (subst u) simp
  obtain r1 w1 where hr: "http_request (login_request lib email password nonce) w0 = (r1, w1)"
    by (cases "http_request (login_request lib email password nonce) w0")
  from http_request_cases [OF hr]
  have w1: "w1 = w0\<lparr>request_log := request_log w0 @ [login_request lib email password nonce]\<rparr>"
    by blast
  have "\<exists>calls. snd (login_basic lib email password w) = w1\<lparr>generate_headers_log := calls\<rparr>"
  proof (cases "\<exists>s. fst (login_basic lib email password w) = Inr s")
    case True
    then have "snd (login_basic lib email password w) =
        w1\<lparr>generate_headers_log := generate_headers_log (snd (login_basic lib email password w))\<rparr>"
      unfolding run hr
      by (auto simp add: Session_init_def generate_headers_def split: sum.splits)
    then show ?thesis by (rule exI)
  next
    case False
    then have "snd (login_basic lib email password w) = w1\<lparr>generate_headers_log := generate_headers_log w1\<rparr>"
      unfolding run hr
      by (auto simp add: Session_init_def generate_headers_def split: sum.splits)
    then show ?thesis by (rule exI)
  qed
  then obtain calls where "snd (login_basic lib email password w) = w1\<lparr>generate_headers_log := calls\<rparr>"
    by blast
  with w1 w0 have log: "request_log (snd (login_basic lib email password w)) =
       request_log w @ [login_request lib email password nonce]"
    and pos: "urandom_pos (snd (login_basic lib email password w)) = urandom_pos w + 64"
    by simp_all
  have q: "req_verb (login_request lib email password nonce) = POST"
     "req_json (login_request lib email password nonce) =
       Some (JObj [(''email'', JStr email), (''password'', JStr password),
                   (''platform'', JStr ''ios''), (''token'', JStr nonce)])"
    by (simp_all add: login_request_def)
  have ok: "\<exists>s w'. login_basic lib email password w = (Inr s, w') \<and>
           auth_provider s = BasicAuthProvider access_token \<and>
           priv_headers s = fst (generate_headers lib (auth_provider s) v) \<and>
           map_of (priv_headers s) ''Authorization'' = Some (''Token token='' @ py_format lib access_token) \<and>
           (\<forall>t. access_token = JStr t \<longrightarrow>
              map_of (priv_headers s) ''Authorization'' = Some (''Token token='' @ t)) \<and>
           (\<forall>v. map_of (priv_headers s) ''Authorization'' = Some v \<longrightarrow> take 6 v \<noteq> ''Bearer'')"
    if "server w (request_log w) (login_request lib email password nonce) = Response resp"
      and "200 \<le> status_code resp" and "status_code resp < 300"
      and "json_body resp = Some j" and "subscript j ''access_token'' = Inr access_token"
    for resp j access_token
  proof -
    from that(1) w0 have "http_request (login_request lib email password nonce) w0 = (Inr resp, w1)"
      using hr by (simp add: http_request_def)
    with that ok_status_passes [OF that(2,3)]
    have "login_basic lib email password w =
        (Inr (fst (Session_init lib (BasicAuthProvider access_token) w1)),
         snd (Session_init lib (BasicAuthProvider access_token) w1))"
      unfolding run by (simp add: response_json_def split_beta)
    moreover have "py_format lib (JStr t) = t" for t by (simp add: py_format_def)
    ultimately show ?thesis
      by (auto simp add: Session_init_def generate_headers_def)
  qed
  have "nonce = hexlify (fst (os_urandom 64 w)) \<and>
     length (fst (os_urandom 64 w)) = 64 \<and>
     length nonce = 128 \<and> set nonce \<subseteq> set ''0123456789abcdef'' \<and>
     urandom_pos (snd (login_basic lib email password w)) = urandom_pos w + 64 \<and>
     request_log (snd (login_basic lib email password w)) =
       request_log w @ [login_request lib email password nonce] \<and>
     req_verb (login_request lib email password nonce) = POST \<and>
     req_json (login_request lib email password nonce) =
       Some (JObj [(''email'', JStr email), (''password'', JStr password),
                   (''platform'', JStr ''ios''), (''token'', JStr nonce)]) \<and>
     (\<forall>resp j access_token.
        server w (request_log w) (login_request lib email password nonce) = Response resp \<and>
        200 \<le> status_code resp \<and> status_code resp < 300 \<and>
        json_body resp = Some j \<and> subscript j ''access_token'' = Inr access_token \<longrightarrow>
        (\<exists>s w'. login_basic lib email password w = (Inr s, w') \<and>
           auth_provider s = BasicAuthProvider access_token \<and>
           priv_headers s = fst (generate_headers lib (auth_provider s) v) \<and>
           map_of (priv_headers s) ''Authorization'' = Some (''Token token='' @ py_format lib access_token) \<and>
           (\<forall>t. access_token = JStr t \<longrightarrow>
              map_of (priv_headers s) ''Authorization'' = Some (''Token token='' @ t)) \<and>
           (\<forall>v. map_of (priv_headers s) ''Authorization'' = Some v \<longrightarrow> take 6 v \<noteq> ''Bearer'')))"
  proof (intro conjI allI impI)
    show "nonce = hexlify (fst (os_urandom 64 w))" by (rule nonce_def)
    show "length (fst (os_urandom 64 w)) = 64" by (rule len)
    show "length nonce = 128" by (rule n)
    show "set nonce \<subseteq> set ''0123456789abcdef''" by (rule h)
    show "urandom_pos (snd (login_basic lib email password w)) = urandom_pos w + 64" by (rule pos)
    show "request_log (snd (login_basic lib email password w)) =
       request_log w @ [login_request lib email password nonce]" by (rule log)
    show "req_verb (login_request lib email password nonce) = POST" by (rule q(1))
    show "req_json (login_request lib email password nonce) =
       Some (JObj [(''email'', JStr email), (''password'', JStr password),
                   (''platform'', JStr ''ios''), (''token'', JStr nonce)])" by (rule q(2))
  next
    fix resp j access_token
    assume a: "server w (request_log w) (login_request lib email password nonce) = Response resp \<and>
        200 \<le> status_code resp \<and> status_code resp < 300 \<and>
        json_body resp = Some j \<and> subscript j ''access_token'' = Inr access_token"
    show "\<exists>s w'. login_basic lib email password w = (Inr s, w') \<and>
           auth_provider s = BasicAuthProvider access_token \<and>
           priv_headers s = fst (generate_headers lib (auth_provider s) v) \<and>
           map_of (priv_headers s) ''Authorization'' = Some (''Token token='' @ py_format lib access_token) \<and>
           (\<forall>t. access_token = JStr t \<longrightarrow>
              map_of (priv_headers s) ''Authorization'' = Some (''Token token='' @ t)) \<and>
           (\<forall>v. map_of (priv_headers s) ''Authorization'' = Some v \<longrightarrow> take 6 v \<noteq> ''Bearer'')"
    proof (rule ok)
      show "server w (request_log w) (login_request lib email password nonce) = Response resp"
        using a by (rule conjunct1)
      show "200 \<le> status_code resp" "status_code resp < 300" "json_body resp = Some j"
        "subscript j ''access_token'' = Inr access_token"
        using a by simp_all
    qed
  qed
  then show ?thesis by (rule exI [where x = nonce])
qed

theorem login_basic_nonce_and_token_witness:
  "server (fresh_world login_server) (request_log (fresh_world login_server))
     (login_request example_library ''me@example.org'' ''secret''
        ''000102030405060708090a0b0c0d0e0f101112131415161718191a1b1c1d1e1f202122232425262728292a2b2c2d2e2f303132333435363738393a3b3c3d3e3f'') =
     Response \<lparr>status_code = 200, json_body = Some (JObj [(''access_token'', JStr ''T0K'')]),
               raw = \<lparr>unread = [], decode_content = False\<rparr>\<rparr> \<and>
   hexlify (fst (os_urandom 64 (fresh_world login_server))) =
     ''000102030405060708090a0b0c0d0e0f101112131415161718191a1b1c1d1e1f202122232425262728292a2b2c2d2e2f303132333435363738393a3b3c3d3e3f'' \<and>
   (\<exists>s w'. login_basic example_library ''me@example.org'' ''secret'' (fresh_world login_server) = (Inr s, w') \<and>
      auth_provider s = BasicAuthProvider (JStr ''T0K'') \<and>
      map_of (priv_headers s) ''Authorization'' = Some ''Token token=T0K'')"
proof -
  let ?nonce = "''000102030405060708090a0b0c0d0e0f101112131415161718191a1b1c1d1e1f202122232425262728292a2b2c2d2e2f303132333435363738393a3b3c3d3e3f''"
  let ?resp = "\<lparr>status_code = 200, json_body = Some (JObj [(''access_token'', JStr ''T0K'')]),
               raw = \<lparr>unread = [], decode_content = False\<rparr>\<rparr>"
  have nonce: "hexlify (fst (os_urandom 64 (fresh_world login_server))) = ?nonce"
    by code_simp
  have srv: "server (fresh_world login_server) (request_log (fresh_world login_server))
     (login_request example_library ''me@example.org'' ''secret'' ?nonce) = Response ?resp"
    by (simp add: example_defs)
  have tok: "subscript (JObj [(''access_token'', JStr ''T0K'')]) ''access_token'' = Inr (JStr ''T0K'')"
    by (simp add: subscript_def)
  from login_basic_nonce_and_token [where w = "fresh_world login_server" and lib = example_library
      and email = "''me@example.org''" and password = "''secret''"]
  obtain s w' where
    "login_basic example_library ''me@example.org'' ''secret'' (fresh_world login_server) = (Inr s, w')"
    "auth_provider s = BasicAuthProvider (JStr ''T0K'')"
    "map_of (priv_headers s) ''Authorization'' = Some (''Token token='' @ ''T0K'')"
    unfolding nonce using srv tok by force
  then have "\<exists>s w'. login_basic example_library ''me@example.org'' ''secret'' (fresh_world login_server) = (Inr s, w') \<and>
      auth_provider s = BasicAuthProvider (JStr ''T0K'') \<and>
      map_of (priv_headers s) ''Authorization'' = Some ''Token token=T0K''"
    by auto
  with nonce srv show ?thesis by blast
qed

text \<open>
  C4, as amended: the two modes of \<^verbatim>\<open>get_map_image\<close>, for every URL whose request is
  answered by a response. When \<^verbatim>\<open>dest_path\<close> is omitted or is the empty string, the call
  returns the raw stream of the response whatever its status is, and the world differs
  only by the logged request: no file is written. When \<^verbatim>\<open>dest_path\<close> is a non-empty
  string and \<^verbatim>\<open>raise_for_status\<close> raises on the response, the call raises (that error, or
  \<open>IndexError\<close> for a URL without a slash) and again no file is written. When \<^verbatim>\<open>dest_path\<close>
  is a non-empty string, the status passes, the file name can be derived from the URL
  and the file can be opened, the body is written to the file of that name directly
  under \<^verbatim>\<open>dest_path\<close>, and the call returns the raw stream, read to its end.
\<close>

theorem get_map_image_modes:
  assumes "server w (request_log w) (image_request u) = Response img"
  shows "(dest_path = None \<or> dest_path = Some [] \<longrightarrow>
            get_map_image u dest_path w =
              (Inr (raw img), w\<lparr>request_log := request_log w @ [image_request u]\<rparr>)) \<and>
         (\<forall>p e. dest_path = Some p \<and> p \<noteq> [] \<and> raise_for_status img = Inl e \<longrightarrow>
            (\<exists>e'. (e' = e \<or> e' = IndexError) \<and>
               get_map_image u dest_path w =
                 (Inl e', w\<lparr>request_log := request_log w @ [image_request u]\<rparr>))) \<and>
         (\<forall>p a b f.
            dest_path = Some p \<and> p \<noteq> [] \<and> raise_for_status img = Inr () \<and>
            index (py_rsplit CHR ''/'' 2 u) 1 = Inr a \<and>
            index (py_rsplit CHR ''/'' 1 u) 1 = Inr b \<and>
            index (py_split CHR ''?'' (a @ ''-'' @ b)) 0 = Inr f \<and>
            \<not> open_fails w (path_join p f) \<longrightarrow>
            get_map_image u dest_path w =
              (Inr ((raw img)\<lparr>unread := [], decode_content := True\<rparr>),
               w\<lparr>request_log := request_log w @ [image_request u],
                  files := (files w)(path_join p f \<mapsto> unread (raw img))\<rparr>) \<and>
            path_join p f = (if last p = CHR ''/'' then p @ f else p @ ''/'' @ f) \<and>
            CHR ''/'' \<notin> set f)"
proof -
  let ?w1 = "w\<lparr>request_log := request_log w @ [image_request u]\<rparr>"
  have sent: "http_request (image_request u) w = (Inr img, ?w1)"
    using assms by (simp add: http_request_def)
  have omitted: "dest_path = None \<or> dest_path = Some [] \<longrightarrow>
      get_map_image u dest_path w = (Inr (raw img), ?w1)"
    using sent by (auto simp add: get_map_image_def)
  have zero: "index (py_split CHR ''?'' s) 0 = Inr (py_split CHR ''?'' s ! 0)" for s
    using py_split_not_empty [of "CHR ''?''" s] by (simp add: index_def)
  have refused: "\<exists>e'. (e' = e \<or> e' = IndexError) \<and> get_map_image u dest_path w = (Inl e', ?w1)"
    if "dest_path = Some p" "p \<noteq> []" "raise_for_status img = Inl e" for p e
  proof -
    have "\<exists>e'. (e' = e \<or> e' = IndexError) \<and> save_image u p img ?w1 = (Inl e', ?w1)"
      using that(3) zero
      by (auto simp add: save_image_def index_def split: sum.splits if_splits)
    with that(1,2) sent show ?thesis by (simp add: get_map_image_def)
  qed
  have saved: "get_map_image u dest_path w =
              (Inr ((raw img)\<lparr>unread := [], decode_content := True\<rparr>),
               w\<lparr>request_log := request_log w @ [image_request u],
                  files := (files w)(path_join p f \<mapsto> unread (raw img))\<rparr>) \<and>
            path_join p f = (if last p = CHR ''/'' then p @ f else p @ ''/'' @ f) \<and>
            CHR ''/'' \<notin> set f"
    if "dest_path = Some p" "p \<noteq> []" "raise_for_status img = Inr ()"
      "index (py_rsplit CHR ''/'' 2 u) 1 = Inr a" "index (py_rsplit CHR ''/'' 1 u) 1 = Inr b"
      "index (py_split CHR ''?'' (a @ ''-'' @ b)) 0 = Inr f" "\<not> open_fails w (path_join p f)"
    for p a b f
  proof -
    have plain: "CHR ''/'' \<notin> set f" using that(4,5,6) by (rule image_filename_plain)
    have "save_image u p img ?w1 =
        (Inr ((raw img)\<lparr>unread := [], decode_content := True\<rparr>),
         ?w1\<lparr>files := (files ?w1)(path_join p f \<mapsto> unread (raw img))\<rparr>)"
      using that(3,4,5,6,7) by (simp add: save_image_def)
    with that(1,2) sent plain path_join_plain [OF that(2) plain] show ?thesis
      by (simp add: get_map_image_def)
  qed
  from omitted refused saved show ?thesis by blast
qed

theorem get_map_image_modes_witness:
  "get_map_image ''https://h/a/b/c.png?x=1'' (Some ''/tmp'') (fresh_world (image_server 200)) =
     (Inr \<lparr>unread = [], decode_content = True\<rparr>,
      (fresh_world (image_server 200))
        \<lparr>request_log := [image_request ''https://h/a/b/c.png?x=1''],
         files := (files (fresh_world (image_server 200)))(''/tmp/b-c.png'' \<mapsto> ''PNG'')\<rparr>) \<and>
   get_map_image ''https://h/a/b/c.png?x=1'' (Some ''/tmp'') (fresh_world (image_server 404)) =
     (Inl (HTTPError 404),
      (fresh_world (image_server 404))\<lparr>request_log := [image_request ''https://h/a/b/c.png?x=1'']\<rparr>) \<and>
   get_map_image ''https://h/a/b/c.png?x=1'' None (fresh_world (image_server 404)) =
     (Inr \<lparr>unread = ''PNG'', decode_content = False\<rparr>,
      (fresh_world (image_server 404))\<lparr>request_log := [image_request ''https://h/a/b/c.png?x=1'']\<rparr>)"
proof -
  let ?u = "''https://h/a/b/c.png?x=1''"
  let ?img = "\<lambda>st. \<lparr>status_code = st, json_body = None, raw = \<lparr>unread = ''PNG'', decode_content = False\<rparr>\<rparr>"
  have srv: "server (fresh_world (image_server st)) (request_log (fresh_world (image_server st)))
               (image_request ?u) = Response (?img st)" for st
    by (simp add: example_defs)
  have ok: "raise_for_status (?img 200) = Inr ()" and bad: "raise_for_status (?img 404) = Inl (HTTPError 404)"
    by (simp_all add: raise_for_status_def)
  have a: "index (py_rsplit CHR ''/'' 2 ?u) 1 = Inr ''b''"
    and b: "index (py_rsplit CHR ''/'' 1 ?u) 1 = Inr ''c.png?x=1''"
    and f: "index (py_split CHR ''?'' (''b'' @ ''-'' @ ''c.png?x=1'')) 0 = Inr ''b-c.png''"
    by (simp_all add: index_def py_rsplit_def)
  have j: "path_join ''/tmp'' ''b-c.png'' = ''/tmp/b-c.png''"
    by (simp add: path_join_def)
  have o: "\<not> open_fails (fresh_world (image_server 200)) (path_join ''/tmp'' ''b-c.png'')"
    by (simp add: fresh_world_def)
  have 1: "get_map_image ?u (Some ''/tmp'') (fresh_world (image_server 200)) =
     (Inr \<lparr>unread = [], decode_content = True\<rparr>,
      (fresh_world (image_server 200))
        \<lparr>request_log := [image_request ?u],
         files := (files (fresh_world (image_server 200)))(''/tmp/b-c.png'' \<mapsto> ''PNG'')\<rparr>)"
    using get_map_image_modes [OF srv [of 200], where dest_path = "Some ''/tmp''"] ok a b f o j
    by (simp add: fresh_world_def)
  have 2: "get_map_image ?u (Some ''/tmp'') (fresh_world (image_server 404)) =
     (Inl (HTTPError 404), (fresh_world (image_server 404))\<lparr>request_log := [image_request ?u]\<rparr>)"
    by (simp add: model_defs example_defs)
  have 3: "get_map_image ?u None (fresh_world (image_server 404)) =
     (Inr \<lparr>unread = ''PNG'', decode_content = False\<rparr>,
      (fresh_world (image_server 404))\<lparr>request_log := [image_request ?u]\<rparr>)"
    using get_map_image_modes [OF srv [of 404], where dest_path = None]
    by (simp add: fresh_world_def)
  from 1 2 3 show ?thesis by blast
qed

text \<open>
  The claim as it was stated, "when \<^verbatim>\<open>dest_path\<close> is given it checks the response status
  and raises", fails for the empty string: \<^verbatim>\<open>if dest_path:\<close> takes it as omitted, and a
  response with the status 404 is returned without an error.
\<close>

theorem get_map_image_empty_dest_path:
  "get_map_image ''https://h/a/b/c.png?x=1'' (Some []) (fresh_world (image_server 404)) =
     (Inr \<lparr>unread = ''PNG'', decode_content = False\<rparr>,
      (fresh_world (image_server 404))\<lparr>request_log := [image_request ''https://h/a/b/c.png?x=1'']\<rparr>) \<and>
   raise_for_status \<lparr>status_code = 404, json_body = None,
      raw = \<lparr>unread = ''PNG'', decode_content = False\<rparr>\<rparr> = Inl (HTTPError 404)"
  by (simp add: model_defs example_defs)

end
